theory Spec2Isabelle
  imports Complex_Main "HOL-Library.AList"
begin

section \<open>Strings as the handlers use them\<close>

text \<open>
  Strings are modelled as \<open>string\<close> (lists of 8-bit characters), read as ASCII text.
  \<open>toLowerCase\<close> maps the letters \<open>A\<close>..\<open>Z\<close> to \<open>a\<close>..\<open>z\<close> and leaves every other
  character alone; \<open>trim\<close> strips the ASCII white space that JavaScript's \<open>\s\<close> and
  \<open>String.prototype.trim\<close> know (tab, line feed, vertical tab, form feed, carriage
  return, space). Case mappings and white space beyond ASCII are outside this model.
\<close>

definition char_toLowerCase :: "char \<Rightarrow> char" where
  "char_toLowerCase c =
     (let n = (of_char c :: nat)
      in if 65 \<le> n \<and> n \<le> 90 then char_of (n + 32) else c)"

definition toLowerCase :: "string \<Rightarrow> string" where
  "toLowerCase s = map char_toLowerCase s"



text \<open>\<open>s.split(sep)\<close> for a one-character separator: the segments between separators,
  always at least one (\<open>"".split("@")\<close> is \<open>[""]\<close>).\<close>

fun str_split :: "char \<Rightarrow> string \<Rightarrow> string list" where
  "str_split sep [] = [[]]"
| "str_split sep (c # cs) =
     (if c = sep then [] # str_split sep cs
      else (case str_split sep cs of
              [] \<Rightarrow> [[c]]
            | w # ws \<Rightarrow> (c # w) # ws))"

text \<open>\<open>xs[1]\<close> on an array: \<open>None\<close> stands for \<open>undefined\<close>.\<close>

fun index1 :: "'a list \<Rightarrow> 'a option" where
  "index1 (x # y # ys) = Some y"
| "index1 xs = None"

text \<open>\<open>s.includes(p)\<close>: \<open>p\<close> occurs in \<open>s\<close> as a contiguous substring.\<close>

fun is_prefix :: "string \<Rightarrow> string \<Rightarrow> bool" where
  "is_prefix [] s = True"
| "is_prefix (p # ps) [] = False"
| "is_prefix (p # ps) (c # cs) = (p = c \<and> is_prefix ps cs)"

fun str_includes :: "string \<Rightarrow> string \<Rightarrow> bool" where
  "str_includes s [] = True"
| "str_includes [] (p # ps) = False"
| "str_includes (c # cs) (p # ps) = (is_prefix (p # ps) (c # cs) \<or> str_includes cs (p # ps))"

section \<open>Tables\<close>

text \<open>
  JavaScript values as they arrive in a parsed JSON body. Numbers are restricted to
  integers: no modelled handler looks at the value of a number.
\<close>

datatype jsval =
    JUndefined
  | JNull
  | JBool bool
  | JNum int
  | JStr string
  | JArr "jsval list"
  | JObj "(string \<times> jsval) list"

text \<open>The \<open>email_whitelist\<close> table of the schema: \<open>id\<close> is the primary key, \<open>email\<close>
  is \<open>notNull().unique()\<close> and \<open>createdBy\<close> references \<open>users.id\<close>. Time stamps are
  opaque numbers.\<close>

record whitelist_entry =
  wl_id :: string
  wl_email :: string
  wl_createdAt :: nat
  wl_createdBy :: "string option"
  wl_notes :: jsval

text \<open>Modelled from the spec: the \<open>users\<close> table, whose schema (\<open>@/db/schema/auth\<close>) is
  missing. The spec gives the user entity its boolean \<open>isAdmin\<close> flag, set at creation
  and changed only by an admin; the other columns are the ones the handlers select.\<close>

record user =
  user_id :: string
  user_name :: "string option"
  user_email :: "string option"
  user_emailVerified :: "nat option"
  user_image :: "string option"
  user_isAdmin :: bool

record db =
  emailWhitelist :: "whitelist_entry list"
  users :: "user list"

section \<open>Access control (\<open>src/lib/auth.ts\<close>)\<close>

text \<open>\<open>email.split("@")[1]\<close>: the second \<open>@\<close>-separated segment, \<open>undefined\<close> when the
  email has no \<open>@\<close>.\<close>

definition emailDomain :: "string \<Rightarrow> string option" where
  "emailDomain email = index1 (str_split CHR ''@'' email)"

text \<open>\<open>allowedDomains.includes(emailDomain)\<close> on an array of strings: \<open>undefined\<close> is
  never an element.\<close>

definition domains_include :: "string list \<Rightarrow> string option \<Rightarrow> bool" where
  "domains_include allowedDomains d =
     (case d of None \<Rightarrow> False | Some x \<Rightarrow> x \<in> set allowedDomains)"

text \<open>The query \<open>select().from(emailWhitelist).where(eq(email, key)).limit(1)\<close>.\<close>

definition select_whitelist_by_email :: "db \<Rightarrow> string \<Rightarrow> whitelist_entry list" where
  "select_whitelist_by_email d key =
     take 1 (filter (\<lambda>r. wl_email r = key) (emailWhitelist d))"

definition isEmailAllowed :: "string list \<Rightarrow> db \<Rightarrow> string \<Rightarrow> bool" where
  "isEmailAllowed allowedDomains d email =
     (if length allowedDomains > 0 \<and> domains_include allowedDomains (emailDomain email)
      then True
      else length (select_whitelist_by_email d (toLowerCase email)) > 0)"

text \<open>
  The adapter's \<open>createUser\<close>. An optional string is falsy when it is \<open>null\<close>,
  \<open>undefined\<close> or empty. \<open>userData\<close> is spread first and \<open>isAdmin\<close> is written
  after it, so whatever \<open>userData\<close> carries for \<open>isAdmin\<close> is overridden. The insert
  appends the row; the function returns the stored row.
\<close>

definition shouldBeAdmin :: "string list \<Rightarrow> user \<Rightarrow> bool" where
  "shouldBeAdmin allowedDomains userData =
     (case user_email userData of
        None \<Rightarrow> False
      | Some email \<Rightarrow>
          if email \<noteq> [] \<and> length allowedDomains > 0
          then domains_include allowedDomains (emailDomain email)
          else False)"

definition createUser :: "string list \<Rightarrow> user \<Rightarrow> db \<Rightarrow> user \<times> db" where
  "createUser allowedDomains userData d =
     (let newUser = userData\<lparr>user_isAdmin := shouldBeAdmin allowedDomains userData\<rparr>
      in (newUser, d\<lparr>users := users d @ [newUser]\<rparr>))"

text \<open>
  The \<open>signIn\<close> callback. \<open>Inl msg\<close> is \<open>throw new Error(msg)\<close>, \<open>Inr b\<close> is
  \<open>return b\<close>. The callback only reads the database; the state is passed through so
  that this can be stated.
\<close>

definition signIn :: "string list \<Rightarrow> user \<Rightarrow> db \<Rightarrow> (string + bool) \<times> db" where
  "signIn allowedDomains u d =
     (case user_email u of
        None \<Rightarrow> (Inl ''AccessDenied'', d)
      | Some email \<Rightarrow>
          if email = [] then (Inl ''AccessDenied'', d)
          else
            let isAllowed = isEmailAllowed allowedDomains d email
            in if \<not> isAllowed then (Inr False, d) else (Inr True, d))"

section \<open>Route handlers\<close>

text \<open>The result of \<open>await auth()\<close>: \<open>None\<close> is \<open>null\<close>; the session's \<open>user\<close> is
  optional.\<close>

record session_user =
  su_id :: string
  su_isAdmin :: bool

record session =
  sess_user :: "session_user option"

text \<open>The guard \<open>!session?.user?.isAdmin\<close>: \<open>admin_of\<close> is the session's user when the
  guard lets the request through, \<open>None\<close> when it answers 401.\<close>

definition admin_of :: "session option \<Rightarrow> session_user option" where
  "admin_of s =
     (case s of
        None \<Rightarrow> None
      | Some x \<Rightarrow>
          (case sess_user x of
             None \<Rightarrow> None
           | Some u \<Rightarrow> if su_isAdmin u then Some u else None))"

record response =
  status :: nat
  body :: jsval

definition json_response :: "jsval \<Rightarrow> nat \<Rightarrow> response" where
  "json_response b st = \<lparr>status = st, body = b\<rparr>"

definition error_response :: "string \<Rightarrow> nat \<Rightarrow> response" where
  "error_response msg st = json_response (JObj [(''error'', JStr msg)]) st"

definition success_response :: response where
  "success_response = json_response (JObj [(''success'', JBool True)]) 200"

text \<open>Reading a property of a parsed body in a destructuring pattern: a missing
  property, and any property of a non-object, is \<open>undefined\<close>; destructuring \<open>null\<close>
  throws a \<open>TypeError\<close>. The keys of an object are distinct.\<close>

definition get_prop :: "jsval \<Rightarrow> string \<Rightarrow> jsval" where
  "get_prop v k =
     (case v of
        JObj kvs \<Rightarrow> (case map_of kvs k of None \<Rightarrow> JUndefined | Some x \<Rightarrow> x)
      | _ \<Rightarrow> JUndefined)"

definition destructurable :: "jsval \<Rightarrow> bool" where
  "destructurable v = (v \<noteq> JNull \<and> v \<noteq> JUndefined)"

subsection \<open>\<open>PATCH /api/admin/users/[id]\<close>\<close>

text \<open>\<open>db.update(users).set({isAdmin}).where(eq(users.id, userId))\<close>.\<close>

definition update_isAdmin :: "string \<Rightarrow> bool \<Rightarrow> db \<Rightarrow> db" where
  "update_isAdmin userId b d =
     d\<lparr>users := map (\<lambda>u. if user_id u = userId then u\<lparr>user_isAdmin := b\<rparr> else u) (users d)\<rparr>"

text \<open>
  \<open>reqJson\<close> is the outcome of \<open>await req.json()\<close>: \<open>Inl msg\<close> when it rejects with an
  error of that message, \<open>Inr v\<close> the parsed body. Everything thrown inside the
  \<open>try\<close> block ends in the 500 response.
\<close>

definition PATCH :: "session option \<Rightarrow> string + jsval \<Rightarrow> string \<Rightarrow> db \<Rightarrow> response \<times> db" where
  "PATCH sess reqJson userId d =
     (case admin_of sess of
        None \<Rightarrow> (error_response ''Unauthorized'' 401, d)
      | Some su \<Rightarrow>
          (case reqJson of
             Inl msg \<Rightarrow> (error_response ''Failed to update user'' 500, d)
           | Inr b \<Rightarrow>
               if \<not> destructurable b then (error_response ''Failed to update user'' 500, d)
               else
                 (case get_prop b ''isAdmin'' of
                    JBool isAdmin \<Rightarrow>
                      if su_id su = userId \<and> \<not> isAdmin
                      then (error_response ''You cannot remove your own admin privileges'' 400, d)
                      else (success_response, update_isAdmin userId isAdmin d)
                  | _ \<Rightarrow> (error_response ''Invalid isAdmin value'' 400, d))))"

subsection \<open>\<open>POST /api/email-whitelist\<close>\<close>

text \<open>Decimal printing of numbers, as \<open>String(n)\<close> and template literals do for
  integers.\<close>

fun string_of_nat :: "nat \<Rightarrow> string" where
  "string_of_nat n =
     (if n < 10 then [char_of (48 + n)]
      else string_of_nat (n div 10) @ [char_of (48 + n mod 10)])"

declare string_of_nat.simps [simp del]

definition string_of_int :: "int \<Rightarrow> string" where
  "string_of_int i = (if i < 0 then CHR ''-'' # string_of_nat (nat (- i)) else string_of_nat (nat i))"












section \<open>Structured responses (\<open>src/lib/services/llm/llm.ts\<close>)\<close>

subsection \<open>Schema nodes and the derived shape\<close>

text \<open>
  The schema classes that \<open>zodSchemaToJsonSchema\<close> tells apart with \<open>instanceof\<close>. An
  object's shape is the list \<open>Object.entries(shape)\<close>; \<open>ZodUnsupported\<close> stands for a
  node of any other class (a literal, a union, a date, ...), tagged with its name.
\<close>

datatype zod =
    ZodObject "(string \<times> zod) list"
  | ZodString
  | ZodNumber
  | ZodBoolean
  | ZodArray zod
  | ZodOptional zod
  | ZodNullable zod
  | ZodEnum "string list"
  | ZodUnsupported string

text \<open>Writing a property of an object literal, \<open>{...inner, key: v}\<close>: only objects are
  ever spread here; spreading a primitive contributes no properties.\<close>

definition spread_with :: "jsval \<Rightarrow> string \<Rightarrow> jsval \<Rightarrow> jsval" where
  "spread_with inner k v =
     (case inner of
        JObj kvs \<Rightarrow> JObj (AList.update k v kvs)
      | _ \<Rightarrow> JObj [(k, v)])"

text \<open>
  \<open>isOptional\<close> is the library's \<open>value.isOptional()\<close>. \<open>shape_loop\<close> is the
  \<open>for (const [key, value] of Object.entries(shape))\<close> loop with its two
  accumulators; \<open>properties[key] = ...\<close> overwrites an existing key in place and adds
  a new one at the end.
\<close>

function (sequential)
  zodSchemaToJsonSchema :: "(zod \<Rightarrow> bool) \<Rightarrow> zod \<Rightarrow> jsval" and
  shape_loop :: "(zod \<Rightarrow> bool) \<Rightarrow> (string \<times> zod) list \<Rightarrow> (string \<times> jsval) list \<Rightarrow> string list
                 \<Rightarrow> (string \<times> jsval) list \<times> string list"
where
  "zodSchemaToJsonSchema isOptional (ZodObject shape) =
     (case shape_loop isOptional shape [] [] of
        (properties, required) \<Rightarrow>
          JObj [(''type'', JStr ''object''),
                (''properties'', JObj properties),
                (''required'',
                   if length required > 0 then JArr (map JStr required) else JUndefined)])"
| "zodSchemaToJsonSchema isOptional ZodString = JObj [(''type'', JStr ''string'')]"
| "zodSchemaToJsonSchema isOptional ZodNumber = JObj [(''type'', JStr ''number'')]"
| "zodSchemaToJsonSchema isOptional ZodBoolean = JObj [(''type'', JStr ''boolean'')]"
| "zodSchemaToJsonSchema isOptional (ZodArray element) =
     JObj [(''type'', JStr ''array''),
           (''items'', zodSchemaToJsonSchema isOptional element)]"
| "zodSchemaToJsonSchema isOptional (ZodOptional inner) = zodSchemaToJsonSchema isOptional inner"
| "zodSchemaToJsonSchema isOptional (ZodNullable inner) =
     spread_with (zodSchemaToJsonSchema isOptional inner) ''nullable'' (JBool True)"
| "zodSchemaToJsonSchema isOptional (ZodEnum options) =
     JObj [(''type'', JStr ''string''), (''enum'', JArr (map JStr options))]"
| "zodSchemaToJsonSchema isOptional (ZodUnsupported name) = JObj []"
| "shape_loop isOptional [] properties required = (properties, required)"
| "shape_loop isOptional ((key, value) # rest) properties required =
     shape_loop isOptional rest
       (AList.update key (zodSchemaToJsonSchema isOptional value) properties)
       (if \<not> isOptional value then required @ [key] else required)"
  by pat_completeness auto
termination
  by (relation "measure (\<lambda>x. case x of
                    Inl (f, z) \<Rightarrow> size z
                  | Inr (f, shape, ps, rs) \<Rightarrow> size_list (size_prod (\<lambda>k. 0) size) shape)")
     auto

subsection \<open>The retry loop\<close>

text \<open>
  A JavaScript \<open>number\<close>: a finite value, \<open>NaN\<close> or an infinity. The retry budget
  \<open>maxRetries\<close> is such a number, with no check that it is a whole one; the loop
  compares the attempt counter with it twice, in \<open>attempt < maxRetries\<close> and in
  \<open>attempt === maxRetries - 1\<close>. Neither holds of \<open>NaN\<close>; \<open>Infinity - 1\<close> is
  \<open>Infinity\<close>. The attempt counter itself only takes the values 0, 1, 2, ...
\<close>

datatype jsnum = Num real | NaN | PosInf | NegInf

definition attempt_below :: "nat \<Rightarrow> jsnum \<Rightarrow> bool" where
  "attempt_below attempt maxRetries =
     (case maxRetries of
        Num r \<Rightarrow> real attempt < r
      | PosInf \<Rightarrow> True
      | _ \<Rightarrow> False)"

definition attempt_is_last :: "nat \<Rightarrow> jsnum \<Rightarrow> bool" where
  "attempt_is_last attempt maxRetries =
     (case maxRetries of
        Num r \<Rightarrow> real attempt = r - 1
      | _ \<Rightarrow> False)"

text \<open>
  The number as a template literal prints it. A whole number prints as its decimal
  numeral. The only number printed here is the budget in the message of the in-loop
  \<open>throw\<close>, which is reached only when the budget equals the attempt counter plus
  one; the digits after the point of any other finite number are not modelled.
\<close>

definition number_text :: "jsnum \<Rightarrow> string" where
  "number_text n =
     (case n of
        Num r \<Rightarrow> string_of_int \<lfloor>r\<rfloor>
      | NaN \<Rightarrow> ''NaN''
      | PosInf \<Rightarrow> ''Infinity''
      | NegInf \<Rightarrow> ''-Infinity'')"

text \<open>
  What leaves and enters the function. The request carries the two messages and the
  call parameters.
\<close>

record chat_request =
  system_content :: string
  user_content :: string
  req_model :: string
  req_temperature :: jsnum
  max_completion_tokens :: jsnum
  top_p :: int
  stream :: bool
  response_format_type :: string

datatype event = Create chat_request | Sleep nat

text \<open>
  The surroundings of a run: the built-ins \<open>JSON.stringify(v, null, 2)\<close> and
  \<open>JSON.parse\<close>, the schema library's \<open>parse\<close> and \<open>isOptional\<close>, and the provider.
  \<open>Inl msg\<close> is a thrown error with that message. \<open>groq_create k req\<close> is the outcome
  of the run's \<open>k\<close>-th call (counted from 0), made with the request \<open>req\<close>: an error, or
  the \<open>choices[0]?.message?.content\<close> of the completion, \<open>None\<close> when it is absent or
  \<open>null\<close>.
\<close>

record env =
  JSON_stringify :: "jsval \<Rightarrow> string"
  JSON_parse :: "string \<Rightarrow> string + jsval"
  zod_parse :: "zod \<Rightarrow> jsval \<Rightarrow> string + jsval"
  zod_isOptional :: "zod \<Rightarrow> bool"
  groq_create :: "nat \<Rightarrow> chat_request \<Rightarrow> string + string option"

text \<open>The options object, with \<open>None\<close> for a property left out, and the defaults of the
  parameter list.\<close>

record options =
  systemPrompt :: string
  userPrompt :: string
  responseSchema :: zod
  opt_model :: "string option"
  opt_temperature :: "jsnum option"
  opt_maxTokens :: "jsnum option"
  opt_maxRetries :: "jsnum option"

definition model_of :: "options \<Rightarrow> string" where
  "model_of opts = (case opt_model opts of None \<Rightarrow> ''moonshotai/kimi-k2-instruct'' | Some m \<Rightarrow> m)"

definition temperature_of :: "options \<Rightarrow> jsnum" where
  "temperature_of opts = (case opt_temperature opts of None \<Rightarrow> Num (6 / 10) | Some t \<Rightarrow> t)"

definition maxTokens_of :: "options \<Rightarrow> jsnum" where
  "maxTokens_of opts = (case opt_maxTokens opts of None \<Rightarrow> Num 4096 | Some n \<Rightarrow> n)"

definition maxRetries_of :: "options \<Rightarrow> jsnum" where
  "maxRetries_of opts = (case opt_maxRetries opts of None \<Rightarrow> Num 3 | Some n \<Rightarrow> n)"

definition enhancedSystemPrompt :: "env \<Rightarrow> options \<Rightarrow> string" where
  "enhancedSystemPrompt e opts =
     systemPrompt opts
     @ ''\<newline>\<newline>IMPORTANT: You MUST return a valid JSON object that matches exactly this schema:\<newline>''
     @ JSON_stringify e (zodSchemaToJsonSchema (zod_isOptional e) (responseSchema opts))
     @ ''\<newline>\<newline>Return ONLY the JSON object, no markdown formatting, no backticks, no additional text.''"

definition retryInstruction :: "nat \<Rightarrow> string" where
  "retryInstruction attempt =
     (if attempt > 0
      then ''\<newline>\<newline>IMPORTANT: Your previous response failed validation. PLEASE RETURN ONLY VALID JSON AS INSTRUCTED ABOVE. No markdown, no backticks, just the raw JSON object.''
      else [])"

definition retryReminder :: "nat \<Rightarrow> string" where
  "retryReminder attempt =
     (if attempt > 0
      then ''\<newline>\<newline>REMINDER: Return ONLY valid JSON matching the specified schema.''
      else [])"

text \<open>The request of the attempt numbered \<open>attempt\<close> (from 0).\<close>

definition request :: "env \<Rightarrow> options \<Rightarrow> nat \<Rightarrow> chat_request" where
  "request e opts attempt =
     \<lparr>system_content = enhancedSystemPrompt e opts @ retryInstruction attempt,
      user_content = userPrompt opts @ retryReminder attempt,
      req_model = model_of opts,
      req_temperature = temperature_of opts,
      max_completion_tokens = maxTokens_of opts,
      top_p = 1,
      stream = False,
      response_format_type = ''json_object''\<rparr>"

text \<open>
  The \<open>try\<close> block after the provider has answered: \<open>completion\<close> is the outcome of the
  call; \<open>Inr v\<close> is \<open>return validatedData\<close>, \<open>Inl msg\<close> is the message of whatever was
  thrown and caught.
\<close>

definition handle_completion :: "env \<Rightarrow> options \<Rightarrow> string + string option \<Rightarrow> string + jsval" where
  "handle_completion e opts completion =
     (case completion of
        Inl msg \<Rightarrow> Inl msg
      | Inr content \<Rightarrow>
          (case content of
             None \<Rightarrow> Inl ''No response content from LLM''
           | Some c \<Rightarrow>
               if c = [] then Inl ''No response content from LLM''
               else
                 (case JSON_parse e c of
                    Inl msg \<Rightarrow> Inl msg
                  | Inr parsedJson \<Rightarrow>
                      (case zod_parse e (responseSchema opts) parsedJson of
                         Inl msg \<Rightarrow> Inl msg
                       | Inr validatedData \<Rightarrow> Inr validatedData))))"

text \<open>
  The whole \<open>try\<close> block of one attempt: the call to the provider, recorded as the event
  \<open>Create req\<close> with the request that is sent, and what the block makes of the answer.
\<close>

definition try_attempt :: "env \<Rightarrow> options \<Rightarrow> nat \<Rightarrow> event \<times> (string + jsval)" where
  "try_attempt e opts attempt =
     (let req = request e opts attempt
      in (Create req, handle_completion e opts (groq_create e attempt req)))"

text \<open>The three ways out of the function: the \<open>return\<close> inside the loop, the \<open>throw\<close>
  inside the \<open>catch\<close> block, and the \<open>throw\<close> after the loop.\<close>

datatype exit = Returned jsval | ThrownInLoop string | ThrownAfterLoop string

definition finalError :: "jsnum \<Rightarrow> string \<Rightarrow> string" where
  "finalError maxRetries msg =
     ''Failed to get valid structured response after '' @ number_text maxRetries
     @ '' attempts. Last error: '' @ msg"

text \<open>
  The \<open>for\<close> loop, from the attempt \<open>attempt\<close> on, with the events so far. With an
  infinite budget and a provider that never gives a valid answer the loop does not
  end; \<open>None\<close> is a run that does not end.
\<close>

partial_function (option) retry_loop ::
  "env \<Rightarrow> options \<Rightarrow> nat \<Rightarrow> string option \<Rightarrow> event list \<Rightarrow> (event list \<times> exit) option" where
  "retry_loop e opts attempt lastError evs =
     (if attempt_below attempt (maxRetries_of opts) then
        (case try_attempt e opts attempt of
           (call, Inr validatedData) \<Rightarrow> Some (evs @ [call], Returned validatedData)
         | (call, Inl msg) \<Rightarrow>
             if attempt_is_last attempt (maxRetries_of opts)
             then Some (evs @ [call], ThrownInLoop (finalError (maxRetries_of opts) msg))
             else retry_loop e opts (attempt + 1) (Some msg)
                    (evs @ [call, Sleep (1000 * (attempt + 1))]))
      else
        Some (evs,
              ThrownAfterLoop
                (case lastError of None \<Rightarrow> ''Unexpected error in answerStructured'' | Some msg \<Rightarrow> msg)))"

definition answerStructured :: "env \<Rightarrow> options \<Rightarrow> (event list \<times> exit) option" where
  "answerStructured e opts = retry_loop e opts 0 None []"

text \<open>The events of the attempts \<open>a\<close>, ..., \<open>s - 1\<close> when each of them fails and is
  followed by its wait.\<close>

definition attempts_before :: "env \<Rightarrow> options \<Rightarrow> nat \<Rightarrow> nat \<Rightarrow> event list" where
  "attempts_before e opts a s =
     concat (map (\<lambda>k. [Create (request e opts k), Sleep (1000 * (k + 1))]) [a..<s])"


subsection \<open>Sample surroundings for concrete runs\<close>



text \<open>
  A small instance of the surroundings of \<open>answerStructured\<close>: a schema library in
  which exactly the optional wrapper (also under a nullable wrapper) accepts
  \<open>undefined\<close>; a parser that reads only the text \<open>ok\<close>, as an object with the keys \<open>n\<close>
  and \<open>extra\<close>; a validator that accepts an object whose \<open>n\<close> is the number 1 against
  the schema of an object with a number \<open>n\<close> and returns it without its other keys.
  Three providers: one that answers \<open>ok\<close> only to a request whose user message carries
  the reminder of a retry, one whose answers have no content, and one whose answers
  are not JSON.
\<close>

fun sample_isOptional :: "zod \<Rightarrow> bool" where
  "sample_isOptional (ZodOptional inner) = True"
| "sample_isOptional (ZodNullable inner) = sample_isOptional inner"
| "sample_isOptional z = False"

definition reminded_provider :: "nat \<Rightarrow> chat_request \<Rightarrow> string + string option" where
  "reminded_provider k req =
     (if str_includes (user_content req) ''REMINDER'' then Inr (Some ''ok'') else Inr (Some ''oops''))"

definition silent_provider :: "nat \<Rightarrow> chat_request \<Rightarrow> string + string option" where
  "silent_provider k req = Inr None"

definition garbled_provider :: "nat \<Rightarrow> chat_request \<Rightarrow> string + string option" where
  "garbled_provider k req = Inr (Some ''oops'')"

definition sample_env :: "(nat \<Rightarrow> chat_request \<Rightarrow> string + string option) \<Rightarrow> env" where
  "sample_env provider =
     \<lparr>JSON_stringify = (\<lambda>v. ''{}''),
      JSON_parse =
        (\<lambda>s. if s = ''ok'' then Inr (JObj [(''n'', JNum 1), (''extra'', JBool True)])
             else Inl ''Unexpected token''),
      zod_parse =
        (\<lambda>z v. if z = ZodObject [(''n'', ZodNumber)] \<and> get_prop v ''n'' = JNum 1
               then Inr (JObj [(''n'', JNum 1)])
               else Inl ''Expected number''),
      zod_isOptional = sample_isOptional,
      groq_create = provider\<rparr>"

definition sample_options :: "jsnum option \<Rightarrow> options" where
  "sample_options budget =
     \<lparr>systemPrompt = ''sys'', userPrompt = ''user'',
      responseSchema = ZodObject [(''n'', ZodNumber)],
      opt_model = None, opt_temperature = None, opt_maxTokens = None,
      opt_maxRetries = budget\<rparr>"

section \<open>Properties of the access-control decision\<close>

lemma str_split_no_sep: "sep \<notin> set s \<Longrightarrow> str_split sep s = [s]"
  by (induction s) auto

lemma str_split_append:
  "sep \<notin> set a \<Longrightarrow> str_split sep (a @ sep # b) = a # str_split sep b"
  by (induction a) (auto split: list.splits)

text \<open>For an address with a single \<open>@\<close>, the domain the code computes is the text
  after the \<open>@\<close>.\<close>

lemma emailDomain_single_at:
  "CHR ''@'' \<notin> set localPart \<Longrightarrow> CHR ''@'' \<notin> set dmn \<Longrightarrow>
   emailDomain (localPart @ CHR ''@'' # dmn) = Some dmn"
  by (simp add: emailDomain_def str_split_append str_split_no_sep)

lemma select_whitelist_empty:
  "(select_whitelist_by_email d key = []) = (\<forall>r \<in> set (emailWhitelist d). wl_email r \<noteq> key)"
proof -
  have "(take 1 xs = []) = (xs = [])" for xs :: "whitelist_entry list"
    by (cases xs) auto
  then show ?thesis
    by (auto simp: select_whitelist_by_email_def filter_empty_conv)
qed

text \<open>
  Claim C1. An email whose domain is an element of the allowed domains, compared as
  stored, is allowed whatever the database holds: the whitelist table is not consulted.
  The domain is the segment \<open>email.split("@")[1]\<close>; for an address with one \<open>@\<close> it is
  the text after the \<open>@\<close>.
\<close>

theorem isEmailAllowed_domain_rule:
  "(\<forall>dmn. emailDomain email = Some dmn \<and> dmn \<in> set allowedDomains \<longrightarrow>
          isEmailAllowed allowedDomains d email = True)
   \<and> (\<forall>localPart dmn.
          CHR ''@'' \<notin> set localPart \<and> CHR ''@'' \<notin> set dmn \<and> dmn \<in> set allowedDomains \<longrightarrow>
          isEmailAllowed allowedDomains d (localPart @ CHR ''@'' # dmn) = True)"
proof -
  have rule: "isEmailAllowed allowedDomains d' e = True"
    if "emailDomain e = Some dmn" and "dmn \<in> set allowedDomains" for e dmn d'
    using that by (auto simp: isEmailAllowed_def domains_include_def)
  have single: "isEmailAllowed allowedDomains d (localPart @ CHR ''@'' # dmn) = True"
    if "CHR ''@'' \<notin> set localPart" and "CHR ''@'' \<notin> set dmn" and "dmn \<in> set allowedDomains"
    for localPart dmn
    using rule [OF emailDomain_single_at [OF that(1) that(2)] that(3)] .
  show ?thesis
    using rule single by blast
qed

theorem isEmailAllowed_domain_rule_witness:
  "CHR ''@'' \<notin> set ''a'' \<and> CHR ''@'' \<notin> set ''acme.com'' \<and> ''acme.com'' \<in> set [''acme.com'']
   \<and> isEmailAllowed [''acme.com''] \<lparr>emailWhitelist = [], users = []\<rparr> ''a@acme.com'' = True"
proof -
  have hyp: "CHR ''@'' \<notin> set ''a'' \<and> CHR ''@'' \<notin> set ''acme.com'' \<and> ''acme.com'' \<in> set [''acme.com'']"
    by simp
  have yes: "isEmailAllowed [''acme.com''] \<lparr>emailWhitelist = [], users = []\<rparr> (''a'' @ CHR ''@'' # ''acme.com'') = True"
    using isEmailAllowed_domain_rule [of "''a'' @ CHR ''@'' # ''acme.com''" "[''acme.com'']"
        "\<lparr>emailWhitelist = [], users = []\<rparr>", THEN conjunct2, rule_format, OF hyp] .
  show ?thesis
    using hyp yes by simp
qed

text \<open>
  Claim C2. When the domain rule does not admit the email (no allowed domains, or the
  email's domain is not among them), the email is allowed exactly when some row of the
  whitelist table has the lowercased email in its \<open>email\<close> column.
\<close>

theorem isEmailAllowed_whitelist_rule:
  assumes "allowedDomains = [] \<or> \<not> domains_include allowedDomains (emailDomain email)"
  shows "isEmailAllowed allowedDomains d email =
           (\<exists>r \<in> set (emailWhitelist d). wl_email r = toLowerCase email)"
proof -
  have "isEmailAllowed allowedDomains d email =
          (select_whitelist_by_email d (toLowerCase email) \<noteq> [])"
    using assms by (auto simp: isEmailAllowed_def)
  also have "\<dots> = (\<exists>r \<in> set (emailWhitelist d). wl_email r = toLowerCase email)"
    by (simp add: select_whitelist_empty)
  finally show ?thesis .
qed

theorem isEmailAllowed_whitelist_rule_witness:
  "\<not> domains_include [''acme.com''] (emailDomain ''Bob@Other.com'') \<and>
   isEmailAllowed [''acme.com'']
     \<lparr>emailWhitelist = [\<lparr>wl_id = ''w1'', wl_email = ''bob@other.com'', wl_createdAt = 0,
                          wl_createdBy = None, wl_notes = JNull\<rparr>],
      users = []\<rparr> ''Bob@Other.com'' = True"
proof -
  have h: "[''acme.com''] = [] \<or> \<not> domains_include [''acme.com''] (emailDomain ''Bob@Other.com'')"
    by (simp add: domains_include_def emailDomain_def)
  have l: "toLowerCase ''Bob@Other.com'' = ''bob@other.com''"
    by code_simp
  show ?thesis
    using h isEmailAllowed_whitelist_rule [OF h,
      of "\<lparr>emailWhitelist = [\<lparr>wl_id = ''w1'', wl_email = ''bob@other.com'', wl_createdAt = 0,
                          wl_createdBy = None, wl_notes = JNull\<rparr>], users = []\<rparr>"]
    by (simp add: l)
qed

text \<open>
  Claim C3. The row that \<open>createUser\<close> stores has \<open>isAdmin\<close> equal to "the allowed
  domains are non-empty and the domain of the email is one of them"; the row is
  \<open>userData\<close> with only that flag replaced, and it is appended to the users table.
  A user whose domain is not allowed, whitelisted or not, is therefore created with
  \<open>isAdmin = false\<close>: the whitelist table plays no part.
\<close>

theorem createUser_isAdmin:
  "user_isAdmin (fst (createUser allowedDomains userData d)) =
     (allowedDomains \<noteq> [] \<and>
      (\<exists>email dmn. user_email userData = Some email \<and> emailDomain email = Some dmn \<and>
                   dmn \<in> set allowedDomains))
   \<and> users (snd (createUser allowedDomains userData d)) =
       users d @ [fst (createUser allowedDomains userData d)]
   \<and> fst (createUser allowedDomains userData d) =
       userData\<lparr>user_isAdmin := user_isAdmin (fst (createUser allowedDomains userData d))\<rparr>"
proof -
  have empty: "emailDomain [] = None"
    by (simp add: emailDomain_def)
  show ?thesis
    by (cases "user_email userData")
       (auto simp: createUser_def shouldBeAdmin_def Let_def domains_include_def empty
             split: option.splits)
qed

theorem createUser_isAdmin_witness:
  "user_isAdmin (fst (createUser [''acme.com'']
       \<lparr>user_id = ''u1'', user_name = None, user_email = Some ''a@acme.com'',
        user_emailVerified = None, user_image = None, user_isAdmin = False\<rparr>
       \<lparr>emailWhitelist = [], users = []\<rparr>)) = True
   \<and> user_isAdmin (fst (createUser [''acme.com'']
       \<lparr>user_id = ''u2'', user_name = None, user_email = Some ''guest@other.com'',
        user_emailVerified = None, user_image = None, user_isAdmin = True\<rparr>
       \<lparr>emailWhitelist = [\<lparr>wl_id = ''w1'', wl_email = ''guest@other.com'', wl_createdAt = 0,
                           wl_createdBy = None, wl_notes = JNull\<rparr>],
        users = []\<rparr>)) = False"
proof -
  have a: "emailDomain ''a@acme.com'' = Some ''acme.com''"
    by (simp add: emailDomain_def)
  have g: "emailDomain ''guest@other.com'' = Some ''other.com''"
    by (simp add: emailDomain_def)
  show ?thesis
    using createUser_isAdmin [of "[''acme.com'']"
        "\<lparr>user_id = ''u1'', user_name = None, user_email = Some ''a@acme.com'',
          user_emailVerified = None, user_image = None, user_isAdmin = False\<rparr>"
        "\<lparr>emailWhitelist = [], users = []\<rparr>"]
      createUser_isAdmin [of "[''acme.com'']"
        "\<lparr>user_id = ''u2'', user_name = None, user_email = Some ''guest@other.com'',
          user_emailVerified = None, user_image = None, user_isAdmin = True\<rparr>"
        "\<lparr>emailWhitelist = [\<lparr>wl_id = ''w1'', wl_email = ''guest@other.com'', wl_createdAt = 0,
                           wl_createdBy = None, wl_notes = JNull\<rparr>],
        users = []\<rparr>"]
    by (simp add: a g)
qed

text \<open>
  Claim C4. The sign-in callback denies (by throwing \<open>AccessDenied\<close>) when the user has
  no email (\<open>null\<close>, \<open>undefined\<close> or the empty string, which \<open>!user.email\<close> treats
  alike). Otherwise it returns what \<open>isEmailAllowed\<close> returns for the email: \<open>true\<close>
  when allowed, and a plain \<open>false\<close>, no exception, when not. The database is left as
  it was in every case.
\<close>

theorem signIn_gate:
  "(user_email u = None \<or> user_email u = Some [] \<longrightarrow>
      signIn allowedDomains u d = (Inl ''AccessDenied'', d))
   \<and> (\<forall>email. user_email u = Some email \<and> email \<noteq> [] \<longrightarrow>
        signIn allowedDomains u d = (Inr (isEmailAllowed allowedDomains d email), d))"
proof (cases "user_email u")
  case None
  then show ?thesis by (simp add: signIn_def)
next
  case (Some email)
  show ?thesis
  proof (cases "email = []")
    case True
    with Some show ?thesis by (simp add: signIn_def)
  next
    case False
    have "signIn allowedDomains u d = (Inr (isEmailAllowed allowedDomains d email), d)"
      using Some False by (cases "isEmailAllowed allowedDomains d email") (simp_all add: signIn_def)
    with Some False show ?thesis by simp
  qed
qed

theorem signIn_gate_witness:
  "signIn [''acme.com'']
     \<lparr>user_id = ''u0'', user_name = None, user_email = None,
      user_emailVerified = None, user_image = None, user_isAdmin = False\<rparr>
     \<lparr>emailWhitelist = [], users = []\<rparr>
   = (Inl ''AccessDenied'', \<lparr>emailWhitelist = [], users = []\<rparr>)
   \<and> signIn [''acme.com'']
     \<lparr>user_id = ''u1'', user_name = None, user_email = Some ''a@acme.com'',
      user_emailVerified = None, user_image = None, user_isAdmin = False\<rparr>
     \<lparr>emailWhitelist = [], users = []\<rparr>
   = (Inr True, \<lparr>emailWhitelist = [], users = []\<rparr>)
   \<and> signIn [''acme.com'']
     \<lparr>user_id = ''u2'', user_name = None, user_email = Some ''a@other.com'',
      user_emailVerified = None, user_image = None, user_isAdmin = False\<rparr>
     \<lparr>emailWhitelist = [], users = []\<rparr>
   = (Inr False, \<lparr>emailWhitelist = [], users = []\<rparr>)"
proof -
  have yes: "isEmailAllowed [''acme.com''] \<lparr>emailWhitelist = [], users = []\<rparr> ''a@acme.com'' = True"
    by code_simp
  have no: "isEmailAllowed [''acme.com''] \<lparr>emailWhitelist = [], users = []\<rparr> ''a@other.com'' = False"
    by code_simp
  show ?thesis
    using signIn_gate [of "\<lparr>user_id = ''u0'', user_name = None, user_email = None,
          user_emailVerified = None, user_image = None, user_isAdmin = False\<rparr>"
        "[''acme.com'']" "\<lparr>emailWhitelist = [], users = []\<rparr>"]
      signIn_gate [of "\<lparr>user_id = ''u1'', user_name = None, user_email = Some ''a@acme.com'',
          user_emailVerified = None, user_image = None, user_isAdmin = False\<rparr>"
        "[''acme.com'']" "\<lparr>emailWhitelist = [], users = []\<rparr>"]
      signIn_gate [of "\<lparr>user_id = ''u2'', user_name = None, user_email = Some ''a@other.com'',
          user_emailVerified = None, user_image = None, user_isAdmin = False\<rparr>"
        "[''acme.com'']" "\<lparr>emailWhitelist = [], users = []\<rparr>"]
    by (simp add: yes no)
qed

section \<open>Properties of the route handlers\<close>

lemma update_isAdmin_target:
  assumes "x \<in> set (users (update_isAdmin userId b d))" and "user_id x = userId"
  shows "user_isAdmin x = b"
proof -
  from assms(1) obtain u where u: "u \<in> set (users d)"
    and x: "x = (if user_id u = userId then u\<lparr>user_isAdmin := b\<rparr> else u)"
    unfolding update_isAdmin_def by auto
  show ?thesis
  proof (cases "user_id u = userId")
    case True
    with x show ?thesis by simp
  next
    case False
    with x assms(2) show ?thesis by simp
  qed
qed

lemma update_isAdmin_ids:
  "map user_id (users (update_isAdmin userId b d)) = map user_id (users d)"
  by (simp add: update_isAdmin_def comp_def)

lemma update_isAdmin_others:
  "filter (\<lambda>x. user_id x \<noteq> userId) (users (update_isAdmin userId b d)) =
   filter (\<lambda>x. user_id x \<noteq> userId) (users d)"
proof -
  have "filter (\<lambda>x. user_id x \<noteq> userId)
          (map (\<lambda>u. if user_id u = userId then u\<lparr>user_isAdmin := b\<rparr> else u) xs) =
        filter (\<lambda>x. user_id x \<noteq> userId) xs" for xs
    by (induction xs) simp_all
  then show ?thesis by (simp add: update_isAdmin_def)
qed

text \<open>
  Claim C5. For a request by an admin whose body asks for \<open>isAdmin = false\<close>: when the
  target id is the admin's own id the handler answers 400 and leaves the database as
  it was, whatever other users and admins it holds; when the target is another id the
  handler answers with success, every row with the target id has \<open>isAdmin = false\<close>
  afterwards, and the other rows are unchanged.
\<close>

theorem PATCH_self_demotion:
  assumes "admin_of sess = Some su"
      and "destructurable b" and "get_prop b ''isAdmin'' = JBool False"
  shows "(su_id su = userId \<longrightarrow>
            PATCH sess (Inr b) userId d =
              (error_response ''You cannot remove your own admin privileges'' 400, d))
       \<and> (su_id su \<noteq> userId \<longrightarrow>
            PATCH sess (Inr b) userId d = (success_response, update_isAdmin userId False d)
            \<and> (\<forall>x \<in> set (users (update_isAdmin userId False d)).
                  user_id x = userId \<longrightarrow> \<not> user_isAdmin x)
            \<and> map user_id (users (update_isAdmin userId False d)) = map user_id (users d)
            \<and> filter (\<lambda>x. user_id x \<noteq> userId) (users (update_isAdmin userId False d)) =
               filter (\<lambda>x. user_id x \<noteq> userId) (users d))"
proof (intro conjI impI ballI)
  assume "su_id su = userId"
  with assms show "PATCH sess (Inr b) userId d =
      (error_response ''You cannot remove your own admin privileges'' 400, d)"
    by (simp add: PATCH_def)
next
  assume "su_id su \<noteq> userId"
  with assms show "PATCH sess (Inr b) userId d = (success_response, update_isAdmin userId False d)"
    by (simp add: PATCH_def)
next
  fix x
  assume "x \<in> set (users (update_isAdmin userId False d))" and "user_id x = userId"
  then show "\<not> user_isAdmin x"
    using update_isAdmin_target [of x userId False d] by simp
next
  show "map user_id (users (update_isAdmin userId False d)) = map user_id (users d)"
    by (rule update_isAdmin_ids)
next
  show "filter (\<lambda>x. user_id x \<noteq> userId) (users (update_isAdmin userId False d)) =
        filter (\<lambda>x. user_id x \<noteq> userId) (users d)"
    by (rule update_isAdmin_others)
qed

theorem PATCH_self_demotion_witness:
  "PATCH (Some \<lparr>sess_user = Some \<lparr>su_id = ''u1'', su_isAdmin = True\<rparr>\<rparr>)
     (Inr (JObj [(''isAdmin'', JBool False)])) ''u1''
     \<lparr>emailWhitelist = [],
      users = [\<lparr>user_id = ''u1'', user_name = None, user_email = Some ''a@acme.com'',
                user_emailVerified = None, user_image = None, user_isAdmin = True\<rparr>,
               \<lparr>user_id = ''u2'', user_name = None, user_email = Some ''b@acme.com'',
                user_emailVerified = None, user_image = None, user_isAdmin = True\<rparr>]\<rparr>
   = (error_response ''You cannot remove your own admin privileges'' 400,
      \<lparr>emailWhitelist = [],
       users = [\<lparr>user_id = ''u1'', user_name = None, user_email = Some ''a@acme.com'',
                 user_emailVerified = None, user_image = None, user_isAdmin = True\<rparr>,
                \<lparr>user_id = ''u2'', user_name = None, user_email = Some ''b@acme.com'',
                 user_emailVerified = None, user_image = None, user_isAdmin = True\<rparr>]\<rparr>)
   \<and> PATCH (Some \<lparr>sess_user = Some \<lparr>su_id = ''u1'', su_isAdmin = True\<rparr>\<rparr>)
     (Inr (JObj [(''isAdmin'', JBool False)])) ''u2''
     \<lparr>emailWhitelist = [],
      users = [\<lparr>user_id = ''u1'', user_name = None, user_email = Some ''a@acme.com'',
                user_emailVerified = None, user_image = None, user_isAdmin = True\<rparr>,
               \<lparr>user_id = ''u2'', user_name = None, user_email = Some ''b@acme.com'',
                user_emailVerified = None, user_image = None, user_isAdmin = True\<rparr>]\<rparr>
   = (success_response,
      \<lparr>emailWhitelist = [],
       users = [\<lparr>user_id = ''u1'', user_name = None, user_email = Some ''a@acme.com'',
                 user_emailVerified = None, user_image = None, user_isAdmin = True\<rparr>,
                \<lparr>user_id = ''u2'', user_name = None, user_email = Some ''b@acme.com'',
                 user_emailVerified = None, user_image = None, user_isAdmin = False\<rparr>]\<rparr>)"
proof -
  have adm: "admin_of (Some \<lparr>sess_user = Some \<lparr>su_id = ''u1'', su_isAdmin = True\<rparr>\<rparr>)
             = Some \<lparr>su_id = ''u1'', su_isAdmin = True\<rparr>"
    by (simp add: admin_of_def)
  have des: "destructurable (JObj [(''isAdmin'', JBool False)])"
    by (simp add: destructurable_def)
  have prp: "get_prop (JObj [(''isAdmin'', JBool False)]) ''isAdmin'' = JBool False"
    by (simp add: get_prop_def)
  have upd: "update_isAdmin ''u2'' False
      \<lparr>emailWhitelist = [],
       users = [\<lparr>user_id = ''u1'', user_name = None, user_email = Some ''a@acme.com'',
                 user_emailVerified = None, user_image = None, user_isAdmin = True\<rparr>,
                \<lparr>user_id = ''u2'', user_name = None, user_email = Some ''b@acme.com'',
                 user_emailVerified = None, user_image = None, user_isAdmin = True\<rparr>]\<rparr>
    = \<lparr>emailWhitelist = [],
       users = [\<lparr>user_id = ''u1'', user_name = None, user_email = Some ''a@acme.com'',
                 user_emailVerified = None, user_image = None, user_isAdmin = True\<rparr>,
                \<lparr>user_id = ''u2'', user_name = None, user_email = Some ''b@acme.com'',
                 user_emailVerified = None, user_image = None, user_isAdmin = False\<rparr>]\<rparr>"
    by (simp add: update_isAdmin_def)
  have self: "su_id \<lparr>su_id = ''u1'', su_isAdmin = True\<rparr> = ''u1''"
    by simp
  have other: "su_id \<lparr>su_id = ''u1'', su_isAdmin = True\<rparr> \<noteq> ''u2''"
    by simp
  show ?thesis
    using PATCH_self_demotion [OF adm des prp, THEN conjunct1, THEN mp, OF self]
      PATCH_self_demotion [OF adm des prp, THEN conjunct2, THEN mp, OF other, THEN conjunct1]
    by (simp only: upd)
qed

section \<open>Properties of the structured-response validator\<close>

subsection \<open>The derived shape\<close>

lemma update_fresh: "k \<notin> fst ` set al \<Longrightarrow> AList.update k v al = al @ [(k, v)]"
  by (induction al) auto

lemma shape_loop_fold:
  "shape_loop f shape ps rs =
     (fold (\<lambda>(k, v). AList.update k (zodSchemaToJsonSchema f v)) shape ps,
      rs @ map fst (filter (\<lambda>(k, v). \<not> f v) shape))"
  by (induction shape arbitrary: ps rs) auto

lemma fold_update_distinct:
  "distinct (map fst shape) \<Longrightarrow> fst ` set ps \<inter> fst ` set shape = {} \<Longrightarrow>
   fold (\<lambda>(k, v). AList.update k (g v)) shape ps = ps @ map (\<lambda>(k, v). (k, g v)) shape"
proof (induction shape arbitrary: ps)
  case Nil
  then show ?case by simp
next
  case (Cons kv shape)
  obtain k v where kv: "kv = (k, v)" by (cases kv)
  from Cons.prems kv have fresh: "k \<notin> fst ` set ps" by auto
  have step: "AList.update k (g v) ps = ps @ [(k, g v)]"
    using fresh by (rule update_fresh)
  have disj: "fst ` set (ps @ [(k, g v)]) \<inter> fst ` set shape = {}"
    using Cons.prems kv by auto
  have dist: "distinct (map fst shape)"
    using Cons.prems by simp
  show ?case
    using Cons.IH [OF dist disj] by (simp add: kv step)
qed

lemma zodSchemaToJsonSchema_object:
  "\<exists>kvs. zodSchemaToJsonSchema f z = JObj kvs"
  by (induction z) (auto simp: spread_with_def split: prod.splits)

text \<open>
  Claim C9. The derived shape, node kind by node kind. An object (its keys distinct, as
  \<open>Object.entries\<close> yields them) gives \<open>type: "object"\<close>, the derived shape of every key
  under \<open>properties\<close> in the order of the entries, and under \<open>required\<close> the keys whose
  schema is not optional, in that order (\<open>undefined\<close>, which \<open>JSON.stringify\<close> leaves
  out, when there is no such key). String, number and boolean give their type; an
  array gives \<open>type: "array"\<close> with the derived shape of its element under \<open>items\<close>; an
  optional node gives the shape of the node it wraps; a nullable node gives the shape
  of the node it wraps with \<open>nullable: true\<close> added; an enum gives \<open>type: "string"\<close> with
  its options under \<open>enum\<close>; any other node gives the empty object. The function has no
  failing branch.
\<close>

theorem zodSchemaToJsonSchema_kinds:
  "(distinct (map fst shape) \<longrightarrow>
      zodSchemaToJsonSchema f (ZodObject shape) =
        JObj [(''type'', JStr ''object''),
              (''properties'', JObj (map (\<lambda>(k, v). (k, zodSchemaToJsonSchema f v)) shape)),
              (''required'',
                 if \<exists>(k, v) \<in> set shape. \<not> f v
                 then JArr (map JStr (map fst (filter (\<lambda>(k, v). \<not> f v) shape)))
                 else JUndefined)])
   \<and> zodSchemaToJsonSchema f ZodString = JObj [(''type'', JStr ''string'')]
   \<and> zodSchemaToJsonSchema f ZodNumber = JObj [(''type'', JStr ''number'')]
   \<and> zodSchemaToJsonSchema f ZodBoolean = JObj [(''type'', JStr ''boolean'')]
   \<and> zodSchemaToJsonSchema f (ZodArray element) =
        JObj [(''type'', JStr ''array''), (''items'', zodSchemaToJsonSchema f element)]
   \<and> zodSchemaToJsonSchema f (ZodOptional inner) = zodSchemaToJsonSchema f inner
   \<and> (\<exists>kvs. zodSchemaToJsonSchema f inner = JObj kvs \<and>
             zodSchemaToJsonSchema f (ZodNullable inner) =
               JObj (AList.update ''nullable'' (JBool True) kvs))
   \<and> zodSchemaToJsonSchema f (ZodEnum options) =
        JObj [(''type'', JStr ''string''), (''enum'', JArr (map JStr options))]
   \<and> zodSchemaToJsonSchema f (ZodUnsupported name) = JObj []"
proof -
  have obj: "zodSchemaToJsonSchema f (ZodObject shape) =
        JObj [(''type'', JStr ''object''),
              (''properties'', JObj (map (\<lambda>(k, v). (k, zodSchemaToJsonSchema f v)) shape)),
              (''required'',
                 if \<exists>(k, v) \<in> set shape. \<not> f v
                 then JArr (map JStr (map fst (filter (\<lambda>(k, v). \<not> f v) shape)))
                 else JUndefined)]"
    if "distinct (map fst shape)"
  proof -
    have props: "fold (\<lambda>(k, v). AList.update k (zodSchemaToJsonSchema f v)) shape [] =
                 map (\<lambda>(k, v). (k, zodSchemaToJsonSchema f v)) shape"
      using fold_update_distinct [OF that, of "[]" "zodSchemaToJsonSchema f"] by simp
    have req: "(filter (\<lambda>(k, v). \<not> f v) shape \<noteq> []) = (\<exists>(k, v) \<in> set shape. \<not> f v)"
      by (auto simp: filter_empty_conv)
    show ?thesis
      by (simp add: shape_loop_fold props req)
  qed
  obtain kvs where kvs: "zodSchemaToJsonSchema f inner = JObj kvs"
    using zodSchemaToJsonSchema_object by blast
  have nullable: "\<exists>kvs. zodSchemaToJsonSchema f inner = JObj kvs \<and>
             zodSchemaToJsonSchema f (ZodNullable inner) =
               JObj (AList.update ''nullable'' (JBool True) kvs)"
    using kvs by (simp add: spread_with_def)
  show ?thesis
    using obj nullable by simp
qed

theorem zodSchemaToJsonSchema_kinds_witness:
  "zodSchemaToJsonSchema sample_isOptional
     (ZodObject [(''name'', ZodString), (''age'', ZodNumber),
                 (''nick'', ZodOptional ZodString),
                 (''tags'', ZodNullable (ZodArray (ZodEnum [''a'', ''b''])))])
   = JObj [(''type'', JStr ''object''),
           (''properties'',
              JObj [(''name'', JObj [(''type'', JStr ''string'')]),
                    (''age'', JObj [(''type'', JStr ''number'')]),
                    (''nick'', JObj [(''type'', JStr ''string'')]),
                    (''tags'', JObj [(''type'', JStr ''array''),
                                     (''items'', JObj [(''type'', JStr ''string''),
                                                       (''enum'', JArr [JStr ''a'', JStr ''b''])]),
                                     (''nullable'', JBool True)])]),
           (''required'', JArr [JStr ''name'', JStr ''age'', JStr ''tags''])]"
proof -
  have d: "distinct (map fst [(''name'', ZodString), (''age'', ZodNumber),
                 (''nick'', ZodOptional ZodString),
                 (''tags'', ZodNullable (ZodArray (ZodEnum [''a'', ''b''])))])"
    by simp
  show ?thesis
    using zodSchemaToJsonSchema_kinds [THEN conjunct1, THEN mp, OF d, of sample_isOptional]
    by (simp add: spread_with_def)
qed

subsection \<open>Runs of the retry loop\<close>

lemma try_attempt_eq:
  "try_attempt e opts k =
     (Create (request e opts k), handle_completion e opts (groq_create e k (request e opts k)))"
  by (simp add: try_attempt_def Let_def)

lemma attempts_before_same: "attempts_before e opts s s = []"
  by (simp add: attempts_before_def)

lemma attempts_before_step:
  "a < s \<Longrightarrow> attempts_before e opts a s =
     [Create (request e opts a), Sleep (1000 * (a + 1))] @ attempts_before e opts (Suc a) s"
  by (simp add: attempts_before_def upt_conv_Cons)

lemma attempts_before_last:
  "a \<le> s \<Longrightarrow> attempts_before e opts a (Suc s) =
     attempts_before e opts a s @ [Create (request e opts s), Sleep (1000 * (s + 1))]"
  by (simp add: attempts_before_def)

lemma retry_loop_stop:
  assumes "attempt_below s (maxRetries_of opts)"
      and "\<not> isl (snd (try_attempt e opts s)) \<or> attempt_is_last s (maxRetries_of opts)"
  shows "retry_loop e opts s lastError evs =
           Some (evs @ [Create (request e opts s)],
                 (case snd (try_attempt e opts s) of
                    Inr v \<Rightarrow> Returned v
                  | Inl msg \<Rightarrow> ThrownInLoop (finalError (maxRetries_of opts) msg)))"
proof (cases "snd (try_attempt e opts s)")
  case (Inl msg)
  with assms have "attempt_is_last s (maxRetries_of opts)" by simp
  with Inl assms(1) show ?thesis
    by (simp add: retry_loop.simps [of e opts s] try_attempt_eq)
next
  case (Inr v)
  with assms(1) show ?thesis
    by (simp add: retry_loop.simps [of e opts s] try_attempt_eq)
qed

lemma retry_loop_continue:
  assumes "attempt_below a (maxRetries_of opts)"
      and "snd (try_attempt e opts a) = Inl msg"
      and "\<not> attempt_is_last a (maxRetries_of opts)"
  shows "retry_loop e opts a lastError evs =
           retry_loop e opts (Suc a) (Some msg)
             (evs @ [Create (request e opts a), Sleep (1000 * (a + 1))])"
  using assms by (simp add: retry_loop.simps [of e opts a] try_attempt_eq)

lemma retry_loop_no_attempt:
  "\<not> attempt_below a (maxRetries_of opts) \<Longrightarrow>
   retry_loop e opts a lastError evs =
     Some (evs, ThrownAfterLoop
             (case lastError of None \<Rightarrow> ''Unexpected error in answerStructured'' | Some msg \<Rightarrow> msg))"
  by (simp add: retry_loop.simps [of e opts a])

lemma retry_loop_returned:
  assumes "retry_loop e opts a lastError evs = Some y"
  shows "\<forall>v. snd y = Returned v \<longrightarrow>
           (\<exists>s. a \<le> s \<and> attempt_below s (maxRetries_of opts) \<and>
                snd (try_attempt e opts s) = Inr v \<and>
                (\<forall>k. a \<le> k \<and> k < s \<longrightarrow> isl (snd (try_attempt e opts k))))"
proof (rule retry_loop.raw_induct
    [where P = "\<lambda>e opts a lastError evs y. \<forall>v. snd y = Returned v \<longrightarrow>
           (\<exists>s. a \<le> s \<and> attempt_below s (maxRetries_of opts) \<and>
                snd (try_attempt e opts s) = Inr v \<and>
                (\<forall>k. a \<le> k \<and> k < s \<longrightarrow> isl (snd (try_attempt e opts k))))",
     OF _ assms], goal_cases)
  case (1 loop e opts attempt lastError evs y)
  note IH = "1" (1) and body = "1" (2)
  show ?case
  proof (intro allI impI)
    fix v
    assume ret: "snd y = Returned v"
    have below: "attempt_below attempt (maxRetries_of opts)"
    proof (rule ccontr)
      assume "\<not> attempt_below attempt (maxRetries_of opts)"
      with body have "snd y = ThrownAfterLoop
          (case lastError of None \<Rightarrow> ''Unexpected error in answerStructured'' | Some msg \<Rightarrow> msg)"
        by auto
      with ret show False by simp
    qed
    show "\<exists>s. attempt \<le> s \<and> attempt_below s (maxRetries_of opts) \<and>
                snd (try_attempt e opts s) = Inr v \<and>
                (\<forall>k. attempt \<le> k \<and> k < s \<longrightarrow> isl (snd (try_attempt e opts k)))"
    proof (cases "snd (try_attempt e opts attempt)")
      case (Inr w)
      then have "try_attempt e opts attempt = (Create (request e opts attempt), Inr w)"
        by (simp add: try_attempt_eq)
      with body below have "y = (evs @ [Create (request e opts attempt)], Returned w)"
        by simp
      with ret have "w = v" by simp
      with Inr have ok: "snd (try_attempt e opts attempt) = Inr v" by simp
      have none: "\<forall>k. attempt \<le> k \<and> k < attempt \<longrightarrow> isl (snd (try_attempt e opts k))"
      proof (intro allI impI)
        fix k assume "attempt \<le> k \<and> k < attempt"
        then have False by linarith
        then show "isl (snd (try_attempt e opts k))" ..
      qed
      have "attempt \<le> attempt \<and> attempt_below attempt (maxRetries_of opts) \<and>
            snd (try_attempt e opts attempt) = Inr v \<and>
            (\<forall>k. attempt \<le> k \<and> k < attempt \<longrightarrow> isl (snd (try_attempt e opts k)))"
        using below ok none by blast
      then show ?thesis by (rule exI)
    next
      case (Inl msg)
      then have t: "try_attempt e opts attempt = (Create (request e opts attempt), Inl msg)"
        by (simp add: try_attempt_eq)
      have notlast: "\<not> attempt_is_last attempt (maxRetries_of opts)"
      proof
        assume "attempt_is_last attempt (maxRetries_of opts)"
        with body below t
        have "y = (evs @ [Create (request e opts attempt)],
                   ThrownInLoop (finalError (maxRetries_of opts) msg))"
          by simp
        with ret show False by simp
      qed
      have rec: "loop e opts (attempt + 1) (Some msg)
                   (evs @ [Create (request e opts attempt), Sleep (1000 * (attempt + 1))]) = Some y"
        using body below t notlast by simp
      have "\<exists>s. attempt + 1 \<le> s \<and> attempt_below s (maxRetries_of opts) \<and>
                snd (try_attempt e opts s) = Inr v \<and>
                (\<forall>k. attempt + 1 \<le> k \<and> k < s \<longrightarrow> isl (snd (try_attempt e opts k)))"
        using IH [OF rec, THEN spec, THEN mp, OF ret] .
      then obtain s where all: "attempt + 1 \<le> s \<and> attempt_below s (maxRetries_of opts) \<and>
                snd (try_attempt e opts s) = Inr v \<and>
                (\<forall>k. attempt + 1 \<le> k \<and> k < s \<longrightarrow> isl (snd (try_attempt e opts k)))" ..
      then have s: "attempt + 1 \<le> s" "attempt_below s (maxRetries_of opts)"
          "snd (try_attempt e opts s) = Inr v"
          "\<forall>k. attempt + 1 \<le> k \<and> k < s \<longrightarrow> isl (snd (try_attempt e opts k))"
        by simp_all
      have "\<forall>k. attempt \<le> k \<and> k < s \<longrightarrow> isl (snd (try_attempt e opts k))"
      proof (intro allI impI)
        fix k assume k: "attempt \<le> k \<and> k < s"
        show "isl (snd (try_attempt e opts k))"
        proof (cases "k = attempt")
          case True
          with Inl show ?thesis by simp
        next
          case False
          with k s(4) show ?thesis by simp
        qed
      qed
      with s have "attempt \<le> s \<and> attempt_below s (maxRetries_of opts) \<and>
            snd (try_attempt e opts s) = Inr v \<and>
            (\<forall>k. attempt \<le> k \<and> k < s \<longrightarrow> isl (snd (try_attempt e opts k)))"
        by simp
      then show ?thesis by (rule exI)
    qed
  qed
qed

lemma retry_loop_run:
  assumes "a \<le> s" and "attempt_below s (maxRetries_of opts)"
      and "\<forall>k. a \<le> k \<and> k < s \<longrightarrow>
             attempt_below k (maxRetries_of opts) \<and> isl (snd (try_attempt e opts k)) \<and>
             \<not> attempt_is_last k (maxRetries_of opts)"
      and "\<not> isl (snd (try_attempt e opts s)) \<or> attempt_is_last s (maxRetries_of opts)"
  shows "retry_loop e opts a lastError evs =
           Some (evs @ attempts_before e opts a s @ [Create (request e opts s)],
                 (case snd (try_attempt e opts s) of
                    Inr v \<Rightarrow> Returned v
                  | Inl msg \<Rightarrow> ThrownInLoop (finalError (maxRetries_of opts) msg)))"
  using assms
proof (induction "s - a" arbitrary: a lastError evs)
  case 0
  then have eq: "a = s" by simp
  show ?case
    using retry_loop_stop [OF "0.prems"(2) "0.prems"(4), of lastError evs]
    by (simp add: eq attempts_before_same)
next
  case (Suc n)
  then have lt: "a < s" by simp
  with Suc.prems(3) have here: "attempt_below a (maxRetries_of opts)"
      "isl (snd (try_attempt e opts a))" "\<not> attempt_is_last a (maxRetries_of opts)"
    by simp_all
  from here(2) obtain msg where msg: "snd (try_attempt e opts a) = Inl msg"
    by (cases "snd (try_attempt e opts a)") auto
  have step: "retry_loop e opts a lastError evs =
      retry_loop e opts (Suc a) (Some msg)
        (evs @ [Create (request e opts a), Sleep (1000 * (a + 1))])"
    using here(1) msg here(3) by (rule retry_loop_continue)
  have ih: "retry_loop e opts (Suc a) (Some msg)
        (evs @ [Create (request e opts a), Sleep (1000 * (a + 1))]) =
      Some ((evs @ [Create (request e opts a), Sleep (1000 * (a + 1))])
              @ attempts_before e opts (Suc a) s @ [Create (request e opts s)],
            (case snd (try_attempt e opts s) of
               Inr v \<Rightarrow> Returned v
             | Inl msg \<Rightarrow> ThrownInLoop (finalError (maxRetries_of opts) msg)))"
  proof (rule Suc.hyps(1))
    show "n = s - Suc a" using Suc.hyps(2) by simp
    show "Suc a \<le> s" using lt by simp
    show "attempt_below s (maxRetries_of opts)" using Suc.prems by simp
    show "\<forall>k. Suc a \<le> k \<and> k < s \<longrightarrow>
             attempt_below k (maxRetries_of opts) \<and> isl (snd (try_attempt e opts k)) \<and>
             \<not> attempt_is_last k (maxRetries_of opts)"
      using Suc.prems(3) by simp
    show "\<not> isl (snd (try_attempt e opts s)) \<or> attempt_is_last s (maxRetries_of opts)"
      using Suc.prems by simp
  qed
  show ?case
    using step ih by (simp add: attempts_before_step [OF lt])
qed

text \<open>A run that leaves the loop through its condition: every attempt below \<open>n\<close> is
  made, fails, and is followed by its wait.\<close>

lemma retry_loop_fall_through:
  assumes "a \<le> n" and "\<not> attempt_below n (maxRetries_of opts)"
      and "\<forall>k. a \<le> k \<and> k < n \<longrightarrow>
             attempt_below k (maxRetries_of opts) \<and> isl (snd (try_attempt e opts k)) \<and>
             \<not> attempt_is_last k (maxRetries_of opts)"
  shows "retry_loop e opts a lastError evs =
           Some (evs @ attempts_before e opts a n,
                 ThrownAfterLoop
                   (if a < n then projl (snd (try_attempt e opts (n - 1)))
                    else (case lastError of
                            None \<Rightarrow> ''Unexpected error in answerStructured''
                          | Some msg \<Rightarrow> msg)))"
  using assms
proof (induction "n - a" arbitrary: a lastError evs)
  case 0
  then have eq: "a = n" by simp
  show ?case
    using retry_loop_no_attempt [OF "0.prems"(2), of e lastError evs]
    by (simp add: eq attempts_before_same)
next
  case (Suc m)
  then have lt: "a < n" by simp
  with Suc.prems(3) have here: "attempt_below a (maxRetries_of opts)"
      "isl (snd (try_attempt e opts a))" "\<not> attempt_is_last a (maxRetries_of opts)"
    by simp_all
  from here(2) obtain msg where msg: "snd (try_attempt e opts a) = Inl msg"
    by (cases "snd (try_attempt e opts a)") auto
  have step: "retry_loop e opts a lastError evs =
      retry_loop e opts (Suc a) (Some msg)
        (evs @ [Create (request e opts a), Sleep (1000 * (a + 1))])"
    using here(1) msg here(3) by (rule retry_loop_continue)
  have ih: "retry_loop e opts (Suc a) (Some msg)
        (evs @ [Create (request e opts a), Sleep (1000 * (a + 1))]) =
      Some ((evs @ [Create (request e opts a), Sleep (1000 * (a + 1))])
              @ attempts_before e opts (Suc a) n,
            ThrownAfterLoop
              (if Suc a < n then projl (snd (try_attempt e opts (n - 1)))
               else (case Some msg of
                       None \<Rightarrow> ''Unexpected error in answerStructured''
                     | Some msg \<Rightarrow> msg)))"
  proof (rule Suc.hyps(1))
    show "m = n - Suc a" using Suc.hyps(2) by simp
    show "Suc a \<le> n" using lt by simp
    show "\<not> attempt_below n (maxRetries_of opts)" using Suc.prems by simp
    show "\<forall>k. Suc a \<le> k \<and> k < n \<longrightarrow>
             attempt_below k (maxRetries_of opts) \<and> isl (snd (try_attempt e opts k)) \<and>
             \<not> attempt_is_last k (maxRetries_of opts)"
      using Suc.prems(3) by simp
  qed
  have last: "(if Suc a < n then projl (snd (try_attempt e opts (n - 1)))
               else (case Some msg of
                       None \<Rightarrow> ''Unexpected error in answerStructured''
                     | Some msg \<Rightarrow> msg)) = projl (snd (try_attempt e opts (n - 1)))"
  proof (cases "Suc a < n")
    case True
    then show ?thesis by simp
  next
    case False
    with lt have "n - 1 = a" by simp
    with False msg show ?thesis by simp
  qed
  show ?case
    using step ih lt by (simp only: last attempts_before_step [OF lt] if_True append_assoc)
qed


text \<open>A whole budget: the two comparisons of the loop in terms of integers.\<close>

lemma attempt_below_int: "attempt_below k (Num (of_int n)) = (int k < n)"
proof -
  have "(real k < of_int n) = (int k < n)"
    by (metis of_int_less_iff of_int_of_nat_eq)
  then show ?thesis by (simp add: attempt_below_def)
qed

lemma attempt_is_last_int: "attempt_is_last k (Num (of_int n)) = (int k = n - 1)"
proof -
  have "(real k = of_int n - 1) = (int k = n - 1)"
    by (metis of_int_1 of_int_diff of_int_eq_iff of_int_of_nat_eq)
  then show ?thesis by (simp add: attempt_is_last_def)
qed

lemma attempt_below_earlier:
  assumes "attempt_below s m" and "k < s"
  shows "attempt_below k m \<and> \<not> attempt_is_last k m"
proof (cases m)
  case (Num r)
  with assms(1) have "real s < r" by (simp add: attempt_below_def)
  moreover from assms(2) have "real k + 1 \<le> real s" by simp
  ultimately have "real k < r \<and> real k \<noteq> r - 1" by simp
  with Num show ?thesis by (simp add: attempt_below_def attempt_is_last_def)
next
  case NaN
  with assms(1) show ?thesis by (simp add: attempt_below_def)
next
  case PosInf
  then show ?thesis by (simp add: attempt_below_def attempt_is_last_def)
next
  case NegInf
  with assms(1) show ?thesis by (simp add: attempt_below_def)
qed

lemma answerStructured_first_success:
  assumes "attempt_below s (maxRetries_of opts)"
      and "\<forall>k<s. isl (snd (try_attempt e opts k))"
      and "snd (try_attempt e opts s) = Inr v"
  shows "answerStructured e opts =
           Some (attempts_before e opts 0 s @ [Create (request e opts s)], Returned v)"
proof -
  have before: "\<forall>k. 0 \<le> k \<and> k < s \<longrightarrow>
             attempt_below k (maxRetries_of opts) \<and> isl (snd (try_attempt e opts k)) \<and>
             \<not> attempt_is_last k (maxRetries_of opts)"
    using assms(2) attempt_below_earlier [OF assms(1)] by simp
  have stop: "\<not> isl (snd (try_attempt e opts s)) \<or> attempt_is_last s (maxRetries_of opts)"
    using assms(3) by simp
  show ?thesis
    unfolding answerStructured_def
    using retry_loop_run [OF _ assms(1) before stop, of None "[]"] assms(3) by simp
qed

lemma answerStructured_run_int:
  assumes m: "maxRetries_of opts = Num (of_int n)"
      and "int s < n"
      and "\<forall>k<s. isl (snd (try_attempt e opts k))"
      and "\<not> isl (snd (try_attempt e opts s)) \<or> int s = n - 1"
  shows "answerStructured e opts =
           Some (attempts_before e opts 0 s @ [Create (request e opts s)],
                 (case snd (try_attempt e opts s) of
                    Inr v \<Rightarrow> Returned v
                  | Inl msg \<Rightarrow>
                      ThrownInLoop (''Failed to get valid structured response after ''
                                    @ string_of_int n @ '' attempts. Last error: '' @ msg)))"
proof -
  have below: "attempt_below s (maxRetries_of opts)"
    using assms(2) by (simp add: m attempt_below_int)
  have before: "\<forall>k. 0 \<le> k \<and> k < s \<longrightarrow>
             attempt_below k (maxRetries_of opts) \<and> isl (snd (try_attempt e opts k)) \<and>
             \<not> attempt_is_last k (maxRetries_of opts)"
    using assms(3) attempt_below_earlier [OF below] by simp
  have stop: "\<not> isl (snd (try_attempt e opts s)) \<or> attempt_is_last s (maxRetries_of opts)"
    using assms(4) by (simp add: m attempt_is_last_int)
  have wording: "finalError (maxRetries_of opts) msg =
              ''Failed to get valid structured response after ''
              @ string_of_int n @ '' attempts. Last error: '' @ msg" for msg
    by (simp add: finalError_def number_text_def m)
  show ?thesis
    unfolding answerStructured_def
    using retry_loop_run [OF _ below before stop, of None "[]"]
    by (cases "snd (try_attempt e opts s)") (simp_all add: wording)
qed

lemma last_attempt_exists:
  assumes "1 \<le> (n::int)"
  shows "\<exists>s. int s < n \<and> (\<forall>k<s. isl (snd (try_attempt e opts k))) \<and>
             (\<not> isl (snd (try_attempt e opts s)) \<or> int s = n - 1)"
proof (cases "\<exists>k. int k < n \<and> \<not> isl (snd (try_attempt e opts k))")
  case True
  then obtain s where s: "int s < n \<and> \<not> isl (snd (try_attempt e opts s))"
    and least: "\<forall>k<s. \<not> (int k < n \<and> \<not> isl (snd (try_attempt e opts k)))"
    using exists_least_iff [of "\<lambda>k. int k < n \<and> \<not> isl (snd (try_attempt e opts k))"]
    by blast
  have "\<forall>k<s. isl (snd (try_attempt e opts k))"
  proof (intro allI impI)
    fix k assume "k < s"
    with s least show "isl (snd (try_attempt e opts k))" by force
  qed
  with s have "int s < n \<and> (\<forall>k<s. isl (snd (try_attempt e opts k))) \<and>
             (\<not> isl (snd (try_attempt e opts s)) \<or> int s = n - 1)"
    by simp
  then show ?thesis by (rule exI)
next
  case False
  define s where "s = nat (n - 1)"
  have "int s = n - 1" using assms by (simp add: s_def)
  moreover have "\<forall>k<s. isl (snd (try_attempt e opts k))"
  proof (intro allI impI)
    fix k assume "k < s"
    then have "int k < n" by (simp add: s_def)
    with False show "isl (snd (try_attempt e opts k))" by blast
  qed
  ultimately have "int s < n \<and> (\<forall>k<s. isl (snd (try_attempt e opts k))) \<and>
             (\<not> isl (snd (try_attempt e opts s)) \<or> int s = n - 1)"
    by simp
  then show ?thesis by (rule exI)
qed

lemma sample_budget:
  "maxRetries_of (sample_options b) = (case b of None \<Rightarrow> Num 3 | Some n \<Rightarrow> n)"
  by (simp add: maxRetries_of_def sample_options_def)

lemma sample_silent:
  "snd (try_attempt (sample_env silent_provider) (sample_options b) k)
     = Inl ''No response content from LLM''"
  by (simp add: try_attempt_eq handle_completion_def sample_env_def silent_provider_def)

lemma sample_garbled:
  "snd (try_attempt (sample_env garbled_provider) (sample_options b) k)
     = Inl ''Unexpected token''"
  by (simp add: try_attempt_eq handle_completion_def sample_env_def garbled_provider_def)

lemma sample_reminded_first:
  "snd (try_attempt (sample_env reminded_provider) (sample_options b) 0)
     = Inl ''Unexpected token''"
  by (simp add: try_attempt_eq handle_completion_def sample_env_def reminded_provider_def
        request_def retryReminder_def sample_options_def)


text \<open>The in-loop \<open>throw\<close> is reached only with a budget that is a whole number, one more
  than the number of the attempt that fails last; its message prints that number.\<close>

lemma retry_loop_thrown_in_loop:
  assumes "retry_loop e opts a lastError evs = Some y"
  shows "\<forall>wording. snd y = ThrownInLoop wording \<longrightarrow>
           (\<exists>k msg. a \<le> k \<and> maxRetries_of opts = Num (of_int (int k + 1)) \<and>
                    snd (try_attempt e opts k) = Inl msg \<and>
                    wording = ''Failed to get valid structured response after ''
                           @ string_of_int (int k + 1) @ '' attempts. Last error: '' @ msg)"
proof (rule retry_loop.raw_induct
    [where P = "\<lambda>e opts a lastError evs y. \<forall>wording. snd y = ThrownInLoop wording \<longrightarrow>
           (\<exists>k msg. a \<le> k \<and> maxRetries_of opts = Num (of_int (int k + 1)) \<and>
                    snd (try_attempt e opts k) = Inl msg \<and>
                    wording = ''Failed to get valid structured response after ''
                           @ string_of_int (int k + 1) @ '' attempts. Last error: '' @ msg)",
     OF _ assms], goal_cases)
  case (1 loop e opts attempt lastError evs y)
  note IH = "1" (1) and body = "1" (2)
  show ?case
  proof (intro allI impI)
    fix wording
    assume thrown: "snd y = ThrownInLoop wording"
    have below: "attempt_below attempt (maxRetries_of opts)"
    proof (rule ccontr)
      assume "\<not> attempt_below attempt (maxRetries_of opts)"
      with body have "snd y = ThrownAfterLoop
          (case lastError of None \<Rightarrow> ''Unexpected error in answerStructured'' | Some msg \<Rightarrow> msg)"
        by auto
      with thrown show False by simp
    qed
    show "\<exists>k msg. attempt \<le> k \<and> maxRetries_of opts = Num (of_int (int k + 1)) \<and>
                    snd (try_attempt e opts k) = Inl msg \<and>
                    wording = ''Failed to get valid structured response after ''
                           @ string_of_int (int k + 1) @ '' attempts. Last error: '' @ msg"
    proof (cases "snd (try_attempt e opts attempt)")
      case (Inr w)
      then have "try_attempt e opts attempt = (Create (request e opts attempt), Inr w)"
        by (simp add: try_attempt_eq)
      with body below have "y = (evs @ [Create (request e opts attempt)], Returned w)"
        by simp
      with thrown show ?thesis by simp
    next
      case (Inl msg)
      then have t: "try_attempt e opts attempt = (Create (request e opts attempt), Inl msg)"
        by (simp add: try_attempt_eq)
      show ?thesis
      proof (cases "attempt_is_last attempt (maxRetries_of opts)")
        case True
        with body below t
        have y: "y = (evs @ [Create (request e opts attempt)],
                      ThrownInLoop (finalError (maxRetries_of opts) msg))"
          by simp
        from True obtain r where r: "maxRetries_of opts = Num r" and eq: "real attempt = r - 1"
          by (cases "maxRetries_of opts") (simp_all add: attempt_is_last_def)
        have whole: "r = of_int (int attempt + 1)"
          using eq by simp
        have m: "maxRetries_of opts = Num (of_int (int attempt + 1))"
          using r whole by simp
        have "wording = ''Failed to get valid structured response after ''
                     @ string_of_int (int attempt + 1) @ '' attempts. Last error: '' @ msg"
          using y thrown by (simp add: m finalError_def number_text_def)
        with m Inl have "attempt \<le> attempt \<and> maxRetries_of opts = Num (of_int (int attempt + 1)) \<and>
                    snd (try_attempt e opts attempt) = Inl msg \<and>
                    wording = ''Failed to get valid structured response after ''
                           @ string_of_int (int attempt + 1) @ '' attempts. Last error: '' @ msg"
          by simp
        then show ?thesis by blast
      next
        case False
        have rec: "loop e opts (attempt + 1) (Some msg)
                   (evs @ [Create (request e opts attempt), Sleep (1000 * (attempt + 1))]) = Some y"
          using body below t False by simp
        have "\<exists>k msg. attempt + 1 \<le> k \<and> maxRetries_of opts = Num (of_int (int k + 1)) \<and>
                    snd (try_attempt e opts k) = Inl msg \<and>
                    wording = ''Failed to get valid structured response after ''
                           @ string_of_int (int k + 1) @ '' attempts. Last error: '' @ msg"
          using IH [OF rec, THEN spec, THEN mp, OF thrown] .
        then obtain k msg' where "attempt + 1 \<le> k \<and> maxRetries_of opts = Num (of_int (int k + 1)) \<and>
                    snd (try_attempt e opts k) = Inl msg' \<and>
                    wording = ''Failed to get valid structured response after ''
                           @ string_of_int (int k + 1) @ '' attempts. Last error: '' @ msg'"
          by blast
        then have "attempt \<le> k \<and> maxRetries_of opts = Num (of_int (int k + 1)) \<and>
                    snd (try_attempt e opts k) = Inl msg' \<and>
                    wording = ''Failed to get valid structured response after ''
                           @ string_of_int (int k + 1) @ '' attempts. Last error: '' @ msg'"
          by simp
        then show ?thesis by blast
      qed
    qed
  qed
qed




text \<open>
  Claim C7, with the final failure for a budget that is a whole number. Whatever the
  budget, the function returns \<open>v\<close> when some attempt below the budget yields the
  validated value \<open>v\<close> and every earlier attempt failed, and it returns in no other way;
  the value of an attempt whose response has content, parses and validates is what
  the schema's \<open>parse\<close> returns. When every attempt of a whole-number budget of at least
  one fails, the function throws, from inside the loop, the error whose message names
  the budget and ends with the message of the last attempt's failure. A failure of an
  attempt is an error of the provider, an absent or empty content (with the message
  \<open>No response content from LLM\<close>, handled like any other failure), an error of
  \<open>JSON.parse\<close>, or an error of the schema's \<open>parse\<close>.
\<close>

theorem answerStructured_exits:
  "(\<forall>s v. attempt_below s (maxRetries_of opts) \<and> (\<forall>k<s. isl (snd (try_attempt e opts k))) \<and>
           snd (try_attempt e opts s) = Inr v \<longrightarrow>
           (\<exists>evs. answerStructured e opts = Some (evs, Returned v)))
   \<and> (\<forall>evs v. answerStructured e opts = Some (evs, Returned v) \<longrightarrow>
          (\<exists>s. attempt_below s (maxRetries_of opts) \<and>
               (\<forall>k<s. isl (snd (try_attempt e opts k))) \<and>
               snd (try_attempt e opts s) = Inr v))
   \<and> (\<forall>n msg. maxRetries_of opts = Num (of_int n) \<and> 1 \<le> n \<and>
            (\<forall>k. int k < n - 1 \<longrightarrow> isl (snd (try_attempt e opts k))) \<and>
            snd (try_attempt e opts (nat (n - 1))) = Inl msg \<longrightarrow>
            (\<exists>evs. answerStructured e opts =
               Some (evs, ThrownInLoop (''Failed to get valid structured response after ''
                                        @ string_of_int n
                                        @ '' attempts. Last error: '' @ msg))))
   \<and> (\<forall>k c j v. groq_create e k (request e opts k) = Inr (Some c) \<and> c \<noteq> [] \<and>
          JSON_parse e c = Inr j \<and> zod_parse e (responseSchema opts) j = Inr v \<longrightarrow>
          snd (try_attempt e opts k) = Inr v)
   \<and> (\<forall>k msg. groq_create e k (request e opts k) = Inl msg \<longrightarrow>
          snd (try_attempt e opts k) = Inl msg)
   \<and> (\<forall>k. groq_create e k (request e opts k) = Inr None \<or>
          groq_create e k (request e opts k) = Inr (Some []) \<longrightarrow>
          snd (try_attempt e opts k) = Inl ''No response content from LLM'')
   \<and> (\<forall>k c msg. groq_create e k (request e opts k) = Inr (Some c) \<and> c \<noteq> [] \<and>
          JSON_parse e c = Inl msg \<longrightarrow>
          snd (try_attempt e opts k) = Inl msg)
   \<and> (\<forall>k c j msg. groq_create e k (request e opts k) = Inr (Some c) \<and> c \<noteq> [] \<and>
          JSON_parse e c = Inr j \<and> zod_parse e (responseSchema opts) j = Inl msg \<longrightarrow>
          snd (try_attempt e opts k) = Inl msg)"
proof -
  have success: "\<exists>evs. answerStructured e opts = Some (evs, Returned v)"
    if "attempt_below s (maxRetries_of opts)" "\<forall>k<s. isl (snd (try_attempt e opts k))"
       "snd (try_attempt e opts s) = Inr v" for s v
    using answerStructured_first_success [OF that] by blast
  have only: "\<exists>s. attempt_below s (maxRetries_of opts) \<and>
               (\<forall>k<s. isl (snd (try_attempt e opts k))) \<and>
               snd (try_attempt e opts s) = Inr v"
    if ret: "answerStructured e opts = Some (evs, Returned v)" for evs v
  proof -
    have run: "retry_loop e opts 0 None [] = Some (evs, Returned v)"
      using ret by (simp add: answerStructured_def)
    have "\<exists>s. 0 \<le> s \<and> attempt_below s (maxRetries_of opts) \<and>
                snd (try_attempt e opts s) = Inr v \<and>
                (\<forall>k. 0 \<le> k \<and> k < s \<longrightarrow> isl (snd (try_attempt e opts k)))"
      using retry_loop_returned [OF run, THEN spec, THEN mp, of v] by simp
    then show ?thesis by auto
  qed
  have final: "\<exists>evs. answerStructured e opts =
               Some (evs, ThrownInLoop (''Failed to get valid structured response after ''
                                        @ string_of_int n
                                        @ '' attempts. Last error: '' @ msg))"
    if m: "maxRetries_of opts = Num (of_int n)" and ge: "1 \<le> n"
       and fails: "\<forall>k. int k < n - 1 \<longrightarrow> isl (snd (try_attempt e opts k))"
       and lst: "snd (try_attempt e opts (nat (n - 1))) = Inl msg" for n msg
  proof -
    define s where "s = nat (n - 1)"
    have s: "int s = n - 1" using ge by (simp add: s_def)
    have a1: "int s < n" using s by simp
    have a2: "\<forall>k<s. isl (snd (try_attempt e opts k))" using fails s by auto
    have a3: "\<not> isl (snd (try_attempt e opts s)) \<or> int s = n - 1" using s by simp
    show ?thesis
      using answerStructured_run_int [OF m a1 a2 a3] lst by (simp add: s_def)
  qed
  have valid: "snd (try_attempt e opts k) = Inr v"
    if "groq_create e k (request e opts k) = Inr (Some c)" "c \<noteq> []" "JSON_parse e c = Inr j"
       "zod_parse e (responseSchema opts) j = Inr v"
    for k c j v
    using that by (simp add: try_attempt_eq handle_completion_def)
  have provider: "snd (try_attempt e opts k) = Inl msg"
    if "groq_create e k (request e opts k) = Inl msg" for k msg
    using that by (simp add: try_attempt_eq handle_completion_def)
  have empty: "snd (try_attempt e opts k) = Inl ''No response content from LLM''"
    if "groq_create e k (request e opts k) = Inr None \<or>
        groq_create e k (request e opts k) = Inr (Some [])" for k
    using that by (auto simp: try_attempt_eq handle_completion_def)
  have parse: "snd (try_attempt e opts k) = Inl msg"
    if "groq_create e k (request e opts k) = Inr (Some c)" "c \<noteq> []" "JSON_parse e c = Inl msg"
    for k c msg
    using that by (simp add: try_attempt_eq handle_completion_def)
  have validate: "snd (try_attempt e opts k) = Inl msg"
    if "groq_create e k (request e opts k) = Inr (Some c)" "c \<noteq> []" "JSON_parse e c = Inr j"
       "zod_parse e (responseSchema opts) j = Inl msg"
    for k c j msg
    using that by (simp add: try_attempt_eq handle_completion_def)
  have c1: "\<forall>s v. attempt_below s (maxRetries_of opts) \<and> (\<forall>k<s. isl (snd (try_attempt e opts k))) \<and>
           snd (try_attempt e opts s) = Inr v \<longrightarrow>
           (\<exists>evs. answerStructured e opts = Some (evs, Returned v))"
    using success by blast
  have c2: "\<forall>evs v. answerStructured e opts = Some (evs, Returned v) \<longrightarrow>
          (\<exists>s. attempt_below s (maxRetries_of opts) \<and>
               (\<forall>k<s. isl (snd (try_attempt e opts k))) \<and>
               snd (try_attempt e opts s) = Inr v)"
    using only by blast
  have c3: "\<forall>n msg. maxRetries_of opts = Num (of_int n) \<and> 1 \<le> n \<and>
            (\<forall>k. int k < n - 1 \<longrightarrow> isl (snd (try_attempt e opts k))) \<and>
            snd (try_attempt e opts (nat (n - 1))) = Inl msg \<longrightarrow>
            (\<exists>evs. answerStructured e opts =
               Some (evs, ThrownInLoop (''Failed to get valid structured response after ''
                                        @ string_of_int n
                                        @ '' attempts. Last error: '' @ msg)))"
    using final by blast
  have c4: "\<forall>k c j v. groq_create e k (request e opts k) = Inr (Some c) \<and> c \<noteq> [] \<and>
          JSON_parse e c = Inr j \<and> zod_parse e (responseSchema opts) j = Inr v \<longrightarrow>
          snd (try_attempt e opts k) = Inr v"
    using valid by blast
  have c5: "\<forall>k msg. groq_create e k (request e opts k) = Inl msg \<longrightarrow>
          snd (try_attempt e opts k) = Inl msg"
    using provider by blast
  have c6: "\<forall>k. groq_create e k (request e opts k) = Inr None \<or>
          groq_create e k (request e opts k) = Inr (Some []) \<longrightarrow>
          snd (try_attempt e opts k) = Inl ''No response content from LLM''"
    using empty by blast
  have c7: "\<forall>k c msg. groq_create e k (request e opts k) = Inr (Some c) \<and> c \<noteq> [] \<and>
          JSON_parse e c = Inl msg \<longrightarrow>
          snd (try_attempt e opts k) = Inl msg"
    using parse by blast
  have c8: "\<forall>k c j msg. groq_create e k (request e opts k) = Inr (Some c) \<and> c \<noteq> [] \<and>
          JSON_parse e c = Inr j \<and> zod_parse e (responseSchema opts) j = Inl msg \<longrightarrow>
          snd (try_attempt e opts k) = Inl msg"
    using validate by blast
  show ?thesis
    using c1 c2 c3 c4 c5 c6 c7 c8 by (intro conjI)
qed

theorem answerStructured_exits_witness:
  "answerStructured (sample_env reminded_provider) (sample_options None)
     = Some ([Create (request (sample_env reminded_provider) (sample_options None) 0),
              Sleep 1000,
              Create (request (sample_env reminded_provider) (sample_options None) 1)],
             Returned (JObj [(''n'', JNum 1)]))
   \<and> map_option snd (answerStructured (sample_env silent_provider) (sample_options (Some (Num 2))))
     = Some (ThrownInLoop
         ''Failed to get valid structured response after 2 attempts. Last error: No response content from LLM'')"
proof -
  let ?e = "sample_env reminded_provider"
  let ?o = "sample_options None"
  let ?f = "sample_env silent_provider"
  let ?p = "sample_options (Some (Num 2))"
  have content: "groq_create ?e 1 (request ?e ?o 1) = Inr (Some ''ok'') \<and> ''ok'' \<noteq> [] \<and>
      JSON_parse ?e ''ok'' = Inr (JObj [(''n'', JNum 1), (''extra'', JBool True)]) \<and>
      zod_parse ?e (responseSchema ?o) (JObj [(''n'', JNum 1), (''extra'', JBool True)])
        = Inr (JObj [(''n'', JNum 1)])"
    by (simp add: sample_env_def reminded_provider_def request_def retryReminder_def
          sample_options_def get_prop_def)
  have validated: "snd (try_attempt ?e ?o 1) = Inr (JObj [(''n'', JNum 1)])"
    using answerStructured_exits [of ?o ?e, THEN conjunct2, THEN conjunct2, THEN conjunct2,
        THEN conjunct1, rule_format, OF content] .
  have a: "attempt_below 1 (maxRetries_of ?o) \<and> (\<forall>k<1. isl (snd (try_attempt ?e ?o k))) \<and>
           snd (try_attempt ?e ?o 1) = Inr (JObj [(''n'', JNum 1)])"
    using validated by (simp add: sample_budget attempt_below_def sample_reminded_first)
  from answerStructured_exits [of ?o ?e, THEN conjunct1, rule_format, OF a]
  obtain evs where ok: "answerStructured ?e ?o = Some (evs, Returned (JObj [(''n'', JNum 1)]))"
    by blast
  have upt1: "[0..<1] = [0::nat]" by (simp add: upt_rec)
  have evs: "evs = [Create (request ?e ?o 0), Sleep 1000, Create (request ?e ?o 1)]"
    using ok answerStructured_first_success [of 1 ?o ?e "JObj [(''n'', JNum 1)]"] a
    by (simp add: attempts_before_def upt1)
  have m2: "maxRetries_of ?p = Num (of_int 2)" by (simp add: sample_budget)
  have b: "maxRetries_of ?p = Num (of_int 2) \<and> (1::int) \<le> 2 \<and>
           (\<forall>k. int k < 2 - 1 \<longrightarrow> isl (snd (try_attempt ?f ?p k))) \<and>
           snd (try_attempt ?f ?p (nat (2 - 1))) = Inl ''No response content from LLM''"
    by (simp add: sample_budget sample_silent)
  have two: "string_of_int 2 = ''2''" by code_simp
  from answerStructured_exits [of ?p ?f, THEN conjunct2, THEN conjunct2, THEN conjunct1,
        rule_format, OF b]
  have bad: "map_option snd (answerStructured ?f ?p) =
      Some (ThrownInLoop
         ''Failed to get valid structured response after 2 attempts. Last error: No response content from LLM'')"
    by (auto simp: two)
  show ?thesis
    using ok evs bad by simp
qed

text \<open>
  With the budget 1.5 the second attempt is the last one the loop makes; when it fails
  too, what is thrown is the error of that attempt as it is, after the loop, not the
  message that names the budget.
\<close>

theorem answerStructured_exits_counterexample:
  "maxRetries_of (sample_options (Some (Num (3 / 2)))) = Num (3 / 2)
   \<and> attempt_below 1 (Num (3 / 2)) \<and> \<not> attempt_below 2 (Num (3 / 2))
   \<and> snd (try_attempt (sample_env garbled_provider) (sample_options (Some (Num (3 / 2)))) 1)
       = Inl ''Unexpected token''
   \<and> map_option snd
         (answerStructured (sample_env garbled_provider) (sample_options (Some (Num (3 / 2)))))
       = Some (ThrownAfterLoop ''Unexpected token'')"
proof -
  let ?e = "sample_env garbled_provider"
  let ?o = "sample_options (Some (Num (3 / 2)))"
  have m: "maxRetries_of ?o = Num (3 / 2)"
    by (simp add: sample_budget)
  have inside: "attempt_below 1 (Num (3 / 2))" and outside: "\<not> attempt_below 2 (Num (3 / 2))"
    by (simp_all add: attempt_below_def)
  have out: "\<not> attempt_below 2 (maxRetries_of ?o)"
    using outside by (simp add: m)
  have each: "\<forall>k. 0 \<le> k \<and> k < 2 \<longrightarrow>
             attempt_below k (maxRetries_of ?o) \<and> isl (snd (try_attempt ?e ?o k)) \<and>
             \<not> attempt_is_last k (maxRetries_of ?o)"
  proof (intro allI impI)
    fix k :: nat
    assume "0 \<le> k \<and> k < 2"
    then have "k = 0 \<or> k = 1" by auto
    then show "attempt_below k (maxRetries_of ?o) \<and> isl (snd (try_attempt ?e ?o k)) \<and>
             \<not> attempt_is_last k (maxRetries_of ?o)"
      by (auto simp: m attempt_below_def attempt_is_last_def sample_garbled)
  qed
  have run: "map_option snd (answerStructured ?e ?o) = Some (ThrownAfterLoop ''Unexpected token'')"
    unfolding answerStructured_def
    using retry_loop_fall_through [OF _ out each, of None "[]"]
    by (simp add: sample_garbled)
  show ?thesis
    using m inside outside run by (simp add: sample_garbled)
qed

text \<open>
  Claim C10, for a budget that is a whole number. With such a budget of at least one,
  every run ends in the \<open>return\<close> or in the \<open>throw\<close> of the \<open>catch\<close> block, whose message
  is the descriptive one; the \<open>throw\<close> after the loop is never reached. With a budget of
  zero or less, \<open>-Infinity\<close> included, no request is made and the \<open>throw\<close> after the loop
  raises \<open>Unexpected error in answerStructured\<close>.
\<close>

theorem answerStructured_fallback:
  "(\<forall>n. maxRetries_of opts = Num (of_int n) \<and> 1 \<le> n \<longrightarrow>
        (\<exists>evs v. answerStructured e opts = Some (evs, Returned v)) \<or>
        (\<exists>evs msg. answerStructured e opts =
           Some (evs, ThrownInLoop (''Failed to get valid structured response after ''
                                    @ string_of_int n @ '' attempts. Last error: '' @ msg))))
   \<and> (\<forall>n. maxRetries_of opts = Num (of_int n) \<and> 1 \<le> n \<longrightarrow>
        (\<forall>evs msg. answerStructured e opts \<noteq> Some (evs, ThrownAfterLoop msg)))
   \<and> (\<forall>r. maxRetries_of opts = Num r \<and> r \<le> 0 \<longrightarrow>
        answerStructured e opts = Some ([], ThrownAfterLoop ''Unexpected error in answerStructured''))
   \<and> (maxRetries_of opts = NegInf \<longrightarrow>
        answerStructured e opts = Some ([], ThrownAfterLoop ''Unexpected error in answerStructured''))"
proof -
  have inloop: "(\<exists>evs v. answerStructured e opts = Some (evs, Returned v)) \<or>
        (\<exists>evs msg. answerStructured e opts =
           Some (evs, ThrownInLoop (''Failed to get valid structured response after ''
                                    @ string_of_int n @ '' attempts. Last error: '' @ msg)))"
    if m: "maxRetries_of opts = Num (of_int n)" and ge: "1 \<le> n" for n
  proof -
    obtain s where s: "int s < n" "\<forall>k<s. isl (snd (try_attempt e opts k))"
        "\<not> isl (snd (try_attempt e opts s)) \<or> int s = n - 1"
      using last_attempt_exists [OF ge, of e opts] by blast
    note run = answerStructured_run_int [OF m s]
    show ?thesis
    proof (cases "snd (try_attempt e opts s)")
      case (Inl msg)
      with run have "\<exists>evs msg. answerStructured e opts =
           Some (evs, ThrownInLoop (''Failed to get valid structured response after ''
                                    @ string_of_int n @ '' attempts. Last error: '' @ msg))"
        by auto
      then show ?thesis ..
    next
      case (Inr v)
      with run have "\<exists>evs v. answerStructured e opts = Some (evs, Returned v)"
        by auto
      then show ?thesis ..
    qed
  qed
  have never: "\<forall>evs msg. answerStructured e opts \<noteq> Some (evs, ThrownAfterLoop msg)"
    if m: "maxRetries_of opts = Num (of_int n)" and ge: "1 \<le> n" for n
    using inloop [OF m ge] by auto
  have none: "answerStructured e opts = Some ([], ThrownAfterLoop ''Unexpected error in answerStructured'')"
    if "\<not> attempt_below 0 (maxRetries_of opts)"
    unfolding answerStructured_def
    using retry_loop_no_attempt [OF that, of e None "[]"] by simp
  have nonpos: "answerStructured e opts = Some ([], ThrownAfterLoop ''Unexpected error in answerStructured'')"
    if "maxRetries_of opts = Num r" "r \<le> 0" for r
    using that by (intro none) (simp add: attempt_below_def)
  have neginf: "answerStructured e opts = Some ([], ThrownAfterLoop ''Unexpected error in answerStructured'')"
    if "maxRetries_of opts = NegInf"
    using that by (intro none) (simp add: attempt_below_def)
  have c1: "\<forall>n. maxRetries_of opts = Num (of_int n) \<and> 1 \<le> n \<longrightarrow>
        (\<exists>evs v. answerStructured e opts = Some (evs, Returned v)) \<or>
        (\<exists>evs msg. answerStructured e opts =
           Some (evs, ThrownInLoop (''Failed to get valid structured response after ''
                                    @ string_of_int n @ '' attempts. Last error: '' @ msg)))"
    using inloop by blast
  have c2: "\<forall>n. maxRetries_of opts = Num (of_int n) \<and> 1 \<le> n \<longrightarrow>
        (\<forall>evs msg. answerStructured e opts \<noteq> Some (evs, ThrownAfterLoop msg))"
    using never by blast
  have c3: "\<forall>r. maxRetries_of opts = Num r \<and> r \<le> 0 \<longrightarrow>
        answerStructured e opts = Some ([], ThrownAfterLoop ''Unexpected error in answerStructured'')"
    using nonpos by blast
  have c4: "maxRetries_of opts = NegInf \<longrightarrow>
        answerStructured e opts = Some ([], ThrownAfterLoop ''Unexpected error in answerStructured'')"
    using neginf by blast
  show ?thesis
    using c1 c2 c3 c4 by (intro conjI)
qed

theorem answerStructured_fallback_witness:
  "map_option snd (answerStructured (sample_env silent_provider) (sample_options (Some (Num 1))))
     = Some (ThrownInLoop
         ''Failed to get valid structured response after 1 attempts. Last error: No response content from LLM'')
   \<and> answerStructured (sample_env reminded_provider) (sample_options (Some (Num 0)))
     = Some ([], ThrownAfterLoop ''Unexpected error in answerStructured'')
   \<and> answerStructured (sample_env reminded_provider) (sample_options (Some (Num (- 2))))
     = Some ([], ThrownAfterLoop ''Unexpected error in answerStructured'')
   \<and> answerStructured (sample_env reminded_provider) (sample_options (Some NegInf))
     = Some ([], ThrownAfterLoop ''Unexpected error in answerStructured'')"
proof -
  let ?f = "sample_env silent_provider"
  let ?p = "sample_options (Some (Num 1))"
  have ge: "maxRetries_of ?p = Num (of_int 1) \<and> (1::int) \<le> 1" by (simp add: sample_budget)
  have one: "string_of_int 1 = ''1''" by code_simp
  have stop: "retry_loop ?f ?p 0 None [] =
      Some ([] @ [Create (request ?f ?p 0)],
            (case snd (try_attempt ?f ?p 0) of
               Inr v \<Rightarrow> Returned v
             | Inl msg \<Rightarrow> ThrownInLoop (finalError (maxRetries_of ?p) msg)))"
    by (rule retry_loop_stop) (simp_all add: sample_budget attempt_below_def attempt_is_last_def)
  have run: "answerStructured ?f ?p =
      Some ([Create (request ?f ?p 0)],
            ThrownInLoop (''Failed to get valid structured response after '' @ ''1''
                          @ '' attempts. Last error: '' @ ''No response content from LLM''))"
    using stop
    by (simp add: answerStructured_def sample_silent finalError_def number_text_def sample_budget one)
  have notafter: "\<forall>evs msg. answerStructured ?f ?p \<noteq> Some (evs, ThrownAfterLoop msg)"
    using answerStructured_fallback [of ?p ?f, THEN conjunct2, THEN conjunct1, rule_format, OF ge]
    by blast
  have z: "maxRetries_of (sample_options (Some (Num 0))) = Num 0 \<and> (0::real) \<le> 0"
    by (simp add: sample_budget)
  have n: "maxRetries_of (sample_options (Some (Num (- 2)))) = Num (- 2) \<and> (- 2::real) \<le> 0"
    by (simp add: sample_budget)
  have i: "maxRetries_of (sample_options (Some NegInf)) = NegInf"
    by (simp add: sample_budget)
  show ?thesis
    using run notafter
      answerStructured_fallback [of "sample_options (Some (Num 0))" "sample_env reminded_provider",
        THEN conjunct2, THEN conjunct2, THEN conjunct1, rule_format, OF z]
      answerStructured_fallback [of "sample_options (Some (Num (- 2)))" "sample_env reminded_provider",
        THEN conjunct2, THEN conjunct2, THEN conjunct1, rule_format, OF n]
      answerStructured_fallback [of "sample_options (Some NegInf)" "sample_env reminded_provider",
        THEN conjunct2, THEN conjunct2, THEN conjunct2, THEN mp, OF i]
    by simp
qed

text \<open>
  With the budget 2.5, which is at least one, and a provider that never answers, three
  attempts are made, each followed by its wait, and the \<open>throw\<close> after the loop raises
  the error of the last attempt.
\<close>

theorem answerStructured_fallback_counterexample:
  "maxRetries_of (sample_options (Some (Num (5 / 2)))) = Num (5 / 2) \<and> (1::real) \<le> 5 / 2
   \<and> answerStructured (sample_env silent_provider) (sample_options (Some (Num (5 / 2))))
     = Some ([Create (request (sample_env silent_provider) (sample_options (Some (Num (5 / 2)))) 0),
              Sleep 1000,
              Create (request (sample_env silent_provider) (sample_options (Some (Num (5 / 2)))) 1),
              Sleep 2000,
              Create (request (sample_env silent_provider) (sample_options (Some (Num (5 / 2)))) 2),
              Sleep 3000],
             ThrownAfterLoop ''No response content from LLM'')"
proof -
  let ?e = "sample_env silent_provider"
  let ?o = "sample_options (Some (Num (5 / 2)))"
  have m: "maxRetries_of ?o = Num (5 / 2)"
    by (simp add: sample_budget)
  have out: "\<not> attempt_below 3 (maxRetries_of ?o)"
    by (simp add: m attempt_below_def)
  have each: "\<forall>k. 0 \<le> k \<and> k < 3 \<longrightarrow>
             attempt_below k (maxRetries_of ?o) \<and> isl (snd (try_attempt ?e ?o k)) \<and>
             \<not> attempt_is_last k (maxRetries_of ?o)"
  proof (intro allI impI)
    fix k :: nat
    assume "0 \<le> k \<and> k < 3"
    then have "k = 0 \<or> k = 1 \<or> k = 2" by auto
    then show "attempt_below k (maxRetries_of ?o) \<and> isl (snd (try_attempt ?e ?o k)) \<and>
             \<not> attempt_is_last k (maxRetries_of ?o)"
      by (auto simp: m attempt_below_def attempt_is_last_def sample_silent)
  qed
  have upt3: "[0..<3] = [0, 1, 2::nat]"
    by (simp add: upt_rec)
  have run: "answerStructured ?e ?o =
      Some ([Create (request ?e ?o 0), Sleep 1000, Create (request ?e ?o 1), Sleep 2000,
             Create (request ?e ?o 2), Sleep 3000],
            ThrownAfterLoop ''No response content from LLM'')"
    unfolding answerStructured_def
    using retry_loop_fall_through [OF _ out each, of None "[]"]
    by (simp add: attempts_before_def upt3 sample_silent)
  show ?thesis
    using m run by simp
qed

section \<open>Properties of the whitelist insertion\<close>

lemma of_char_range: "(of_char c :: nat) < 256"
  by simp






























end
